theory Spec2Isabelle
  imports Main "HOL-Library.Word"
begin

unbundle bit_operations_syntax

section \<open>The cwd path string (unistd.c, update_cwd_path)\<close>

text \<open>
  A C string is modelled by the list of its characters before the terminating NUL.
  \<open>mxio_cwd_path\<close> is a buffer of \<open>PATH_MAX\<close> bytes; \<open>PATH_MAX\<close> comes from
  \<open>limits.h\<close> of the C library (4096 there), the code only compares against it.
\<close>

definition PATH_MAX :: nat where
  "PATH_MAX = 4096"

definition unknown_path :: string where
  "unknown_path = ''(unknown)''"

text \<open>
  \<open>strchr(path, '/')\<close> splits the rest of the path: \<open>path_seg\<close> is the segment
  \<open>path[0 .. seglen)\<close>, \<open>path_next\<close> is the pointer \<open>next\<close> of the loop (the end of
  the string when there is no slash, the character after the slash otherwise).
\<close>

definition path_seg :: "string \<Rightarrow> string" where
  "path_seg path = takeWhile (\<lambda>c. c \<noteq> CHR ''/'') path"

definition path_next :: "string \<Rightarrow> string" where
  "path_next path =
     (case dropWhile (\<lambda>c. c \<noteq> CHR ''/'') path of
        [] \<Rightarrow> []
      | _ # rest \<Rightarrow> rest)"

text \<open>\<open>strrchr(s, '/')\<close>: the index of the last slash, \<open>None\<close> for a NULL result.\<close>

definition strrchr_slash :: "string \<Rightarrow> nat option" where
  "strrchr_slash s =
     (if CHR ''/'' \<in> set s
      then Some (length s - 1 - length (takeWhile (\<lambda>c. c \<noteq> CHR ''/'') (rev s)))
      else None)"

lemma path_next_shorter: "path \<noteq> [] \<Longrightarrow> length (path_next path) < length path"
proof -
  assume ne: "path \<noteq> []"
  have le: "length (dropWhile (\<lambda>c. c \<noteq> CHR ''/'') path) \<le> length path"
    by (rule length_dropWhile_le)
  show ?thesis
  proof (cases "dropWhile (\<lambda>c. c \<noteq> CHR ''/'') path")
    case Nil
    show ?thesis using ne by (simp add: path_next_def Nil)
  next
    case (Cons a rest)
    show ?thesis using le by (simp add: path_next_def Cons)
  qed
qed

text \<open>
  The \<open>for (; path[0]; path = next)\<close> loop. The result is the final cwd string; the
  label \<open>wat\<close> stores the sentinel and returns at once.
\<close>

function cwd_loop :: "string \<Rightarrow> string \<Rightarrow> string" where
  "cwd_loop cwd path =
     (if path = [] then cwd
      else if length (path_seg path) = 0 then cwd_loop cwd (path_next path)
      else if path_seg path = ''.'' then cwd_loop cwd (path_next path)
      else if path_seg path = ''..'' then
        (case strrchr_slash cwd of
           None \<Rightarrow> unknown_path
         | Some x \<Rightarrow>
             if x = 0 then cwd_loop (take 1 cwd) (path_next path)
             else cwd_loop (take x cwd) (path_next path))
      else if length cwd + length (path_seg path) + 2 \<ge> PATH_MAX then unknown_path
      else if length cwd \<noteq> 1
        then cwd_loop ((cwd @ ''/'') @ path_seg path) (path_next path)
        else cwd_loop (cwd @ path_seg path) (path_next path))"
  by pat_completeness auto
termination
  by (relation "measure (\<lambda>(cwd, path). length path)") (auto simp: path_next_shorter)

declare cwd_loop.simps [simp del]

definition update_cwd_path :: "string \<Rightarrow> string \<Rightarrow> string" where
  "update_cwd_path cwd path =
     (if path \<noteq> [] \<and> hd path = CHR ''/'' then cwd_loop ''/'' (tl path)
      else cwd_loop cwd path)"

subsection \<open>The normalisation as the specification words it\<close>

text \<open>
  The specification describes the update segment by segment. \<open>split_slash\<close> cuts a
  path at every slash, \<open>segment_step\<close> is the effect of one segment, parameterised by
  the test that sends the cwd to the sentinel: \<open>exceeds_path_max\<close> is the
  specification's wording (the result, with its terminator, is longer than
  \<open>PATH_MAX\<close>), \<open>does_not_fit\<close> is the comparison the code makes.
\<close>


fun split_slash :: "string \<Rightarrow> string list" where
  "split_slash [] = [[]]"
| "split_slash (c # cs) =
     (if c = CHR ''/'' then [] # split_slash cs
      else (case split_slash cs of s # ss \<Rightarrow> (c # s) # ss | [] \<Rightarrow> [[c]]))"

definition parent_dir :: "string \<Rightarrow> string" where
  "parent_dir cwd =
     (if cwd = ''/'' then ''/''
      else (let d = rev (tl (dropWhile (\<lambda>c. c \<noteq> CHR ''/'') (rev cwd)))
            in if d = [] then ''/'' else d))"

definition append_segment :: "string \<Rightarrow> string \<Rightarrow> string" where
  "append_segment cwd seg = (if cwd = ''/'' then cwd @ seg else cwd @ ''/'' @ seg)"

definition segment_step :: "(string \<Rightarrow> string \<Rightarrow> bool) \<Rightarrow> string \<Rightarrow> string \<Rightarrow> string option" where
  "segment_step too_long cwd seg =
     (if seg = [] \<or> seg = ''.'' then Some cwd
      else if seg = ''..'' then Some (parent_dir cwd)
      else if too_long cwd seg then None
      else Some (append_segment cwd seg))"

fun run_segments :: "(string \<Rightarrow> string \<Rightarrow> string option) \<Rightarrow> string \<Rightarrow> string list \<Rightarrow> string" where
  "run_segments step cwd [] = cwd"
| "run_segments step cwd (s # ss) =
     (case step cwd s of None \<Rightarrow> unknown_path | Some c \<Rightarrow> run_segments step c ss)"

definition normalise_by :: "(string \<Rightarrow> string \<Rightarrow> bool) \<Rightarrow> string \<Rightarrow> string \<Rightarrow> string" where
  "normalise_by too_long cwd path =
     (case path of
        [] \<Rightarrow> cwd
      | c # rest \<Rightarrow>
          if c = CHR ''/'' then run_segments (segment_step too_long) ''/'' (split_slash rest)
          else run_segments (segment_step too_long) cwd (split_slash path))"

definition exceeds_path_max :: "string \<Rightarrow> string \<Rightarrow> bool" where
  "exceeds_path_max cwd seg = (length (append_segment cwd seg) + 1 > PATH_MAX)"

definition does_not_fit :: "string \<Rightarrow> string \<Rightarrow> bool" where
  "does_not_fit cwd seg = (length cwd + length seg + 2 \<ge> PATH_MAX)"

definition absolute :: "string \<Rightarrow> bool" where
  "absolute s = (case s of [] \<Rightarrow> False | c # _ \<Rightarrow> c = CHR ''/'')"

lemma split_slash_ne: "split_slash p \<noteq> []"
  by (induction p) (auto split: list.splits)

lemma split_slash_noslash: "CHR ''/'' \<notin> set p \<Longrightarrow> split_slash p = [p]"
  by (induction p) (auto split: list.splits)

lemma split_slash_unfold:
  "CHR ''/'' \<in> set p \<Longrightarrow> split_slash p = path_seg p # split_slash (path_next p)"
proof (induction p)
  case Nil
  then show ?case by simp
next
  case (Cons c cs)
  show ?case
  proof (cases "c = CHR ''/''")
    case True
    then show ?thesis by (simp add: path_seg_def path_next_def)
  next
    case False
    with Cons.prems have "CHR ''/'' \<in> set cs" by simp
    from Cons.IH[OF this] False show ?thesis
      by (simp add: path_seg_def path_next_def)
  qed
qed

lemma path_seg_noslash: "CHR ''/'' \<notin> set p \<Longrightarrow> path_seg p = p"
  by (auto simp: path_seg_def takeWhile_eq_all_conv)

lemma path_next_noslash: "CHR ''/'' \<notin> set p \<Longrightarrow> path_next p = []"
proof -
  assume "CHR ''/'' \<notin> set p"
  then have dw: "dropWhile (\<lambda>c. c \<noteq> CHR ''/'') p = []" by auto
  show ?thesis unfolding path_next_def dw by simp
qed

lemma strrchr_absolute:
  assumes "absolute cwd"
  shows "\<exists>x. strrchr_slash cwd = Some x \<and>
           (if x = 0 then take 1 cwd else take x cwd) = parent_dir cwd"
proof -
  from assms obtain r where cwd: "cwd = CHR ''/'' # r"
    by (auto simp: absolute_def split: list.splits)
  let ?P = "\<lambda>c. c \<noteq> CHR ''/''"
  let ?k = "length (takeWhile ?P (rev cwd))"
  have mem: "CHR ''/'' \<in> set cwd" using cwd by simp
  have klt: "?k < length cwd"
  proof -
    have "?k \<le> length (rev cwd)" by (rule length_takeWhile_le)
    moreover have "?k \<noteq> length (rev cwd)"
    proof
      assume "?k = length (rev cwd)"
      then have "takeWhile ?P (rev cwd) = rev cwd"
        by (metis takeWhile_dropWhile_id append_eq_conv_conj append_Nil2 length_rev)
      then have "\<forall>c\<in>set (rev cwd). ?P c" by (simp add: takeWhile_eq_all_conv)
      with mem show False by auto
    qed
    ultimately show ?thesis by simp
  qed
  let ?x = "length cwd - 1 - ?k"
  have sx: "strrchr_slash cwd = Some ?x" using mem by (simp add: strrchr_slash_def)
  have dw: "dropWhile ?P (rev cwd) = drop ?k (rev cwd)"
    by (simp add: dropWhile_eq_drop)
  have tk: "take ?x cwd = rev (tl (dropWhile ?P (rev cwd)))"
  proof -
    have "rev (tl (dropWhile ?P (rev cwd))) = rev (drop (Suc ?k) (rev cwd))"
      by (simp add: dw drop_Suc tl_drop)
    also have "\<dots> = take (length cwd - Suc ?k) cwd"
      by (simp add: rev_drop)
    finally show ?thesis by simp
  qed
  show ?thesis
  proof (cases "?x = 0")
    case True
    then have "take ?x cwd = []" by simp
    with tk have "rev (tl (dropWhile ?P (rev cwd))) = []" by simp
    then show ?thesis using sx True cwd by (simp add: parent_dir_def Let_def)
  next
    case False
    then have ne: "take ?x cwd \<noteq> []" using cwd by simp
    have "cwd \<noteq> ''/''" using False by auto
    then show ?thesis using sx False tk ne by (simp add: parent_dir_def Let_def)
  qed
qed


lemma cwd_loop_Nil: "cwd_loop cwd [] = cwd"
  by (subst cwd_loop.simps) simp

lemma absolute_len1: "absolute cwd \<Longrightarrow> (length cwd = 1) = (cwd = ''/'')"
  by (cases cwd) (auto simp: absolute_def)

lemma absolute_parent: "absolute cwd \<Longrightarrow> absolute (parent_dir cwd)"
proof -
  assume a: "absolute cwd"
  from strrchr_absolute[OF a] obtain x where
    x: "(if x = 0 then take 1 cwd else take x cwd) = parent_dir cwd" by blast
  from a obtain r where "cwd = CHR ''/'' # r"
    by (auto simp: absolute_def split: list.splits)
  then have "absolute (if x = 0 then take 1 cwd else take x cwd)"
    by (cases x) (auto simp: absolute_def)
  with x show ?thesis by simp
qed

lemma absolute_append: "absolute cwd \<Longrightarrow> absolute (append_segment cwd seg)"
  by (cases cwd) (auto simp: absolute_def append_segment_def)

lemma cwd_loop_one_step:
  assumes a: "absolute cwd" and ne: "path \<noteq> []"
  shows "cwd_loop cwd path =
           (case segment_step does_not_fit cwd (path_seg path) of
              None \<Rightarrow> unknown_path
            | Some c \<Rightarrow> cwd_loop c (path_next path))"
proof -
  from strrchr_absolute[OF a] obtain x where
    x: "strrchr_slash cwd = Some x"
       "(if x = 0 then take 1 cwd else take x cwd) = parent_dir cwd" by blast
  show ?thesis
    using ne x absolute_len1[OF a]
    by (subst cwd_loop.simps)
       (auto simp: segment_step_def does_not_fit_def append_segment_def)
qed

lemma segment_step_absolute:
  "absolute cwd \<Longrightarrow> segment_step f cwd seg = Some c \<Longrightarrow> absolute c"
  by (auto simp: segment_step_def absolute_parent absolute_append split: if_splits)

lemma cwd_loop_segments:
  "absolute cwd \<Longrightarrow>
   cwd_loop cwd path = run_segments (segment_step does_not_fit) cwd (split_slash path)"
proof (induction path arbitrary: cwd rule: length_induct)
  case (1 path)
  show ?case
  proof (cases "path = []")
    case True
    then show ?thesis by (simp add: cwd_loop_Nil segment_step_def)
  next
    case False
    note step = cwd_loop_one_step[OF "1.prems" False]
    show ?thesis
    proof (cases "CHR ''/'' \<in> set path")
      case True
      have sh: "length (path_next path) < length path"
        using False by (rule path_next_shorter)
      show ?thesis
        using step "1.IH" sh segment_step_absolute[OF "1.prems"]
        by (auto simp: split_slash_unfold[OF True] split: option.splits)
    next
      case nos: False
      show ?thesis
        using step
        by (auto simp: split_slash_noslash[OF nos] path_seg_noslash[OF nos]
              path_next_noslash[OF nos] cwd_loop_Nil split: option.splits)
    qed
  qed
qed

lemma absolute_root: "absolute ''/''"
  by (simp add: absolute_def)

lemma update_cwd_path_segments:
  "absolute cwd \<Longrightarrow> update_cwd_path cwd path = normalise_by does_not_fit cwd path"
  by (cases path)
     (auto simp: update_cwd_path_def normalise_by_def cwd_loop_segments absolute_root
        cwd_loop_Nil)

lemma exceeds_imp_does_not_fit: "exceeds_path_max cwd seg \<Longrightarrow> does_not_fit cwd seg"
  by (auto simp: exceeds_path_max_def does_not_fit_def append_segment_def split: if_splits)

section \<open>Statuses, errno values and the io objects\<close>

text \<open>
  \<open>mx_status_t\<close> is a 32-bit \<open>int\<close>: a non-negative value (\<open>NO_ERROR\<close> is 0, a
  byte count is positive) or one of the negative \<open>ERR_\<close> constants of
  \<open>magenta/errors.h\<close>. The code compares statuses with the named constants and with
  0, so a status is \<open>Val n\<close> for the non-negative value \<open>n\<close> or a named error;
  \<open>ERR_OTHER\<close> stands for every negative value that unistd.c does not name.
\<close>

datatype mx_status =
    Val nat
  | ERR_NOT_FOUND | ERR_NO_MEMORY | ERR_INVALID_ARGS | ERR_BUFFER_TOO_SMALL
  | ERR_TIMED_OUT | ERR_ALREADY_EXISTS | ERR_REMOTE_CLOSED | ERR_BAD_PATH | ERR_IO
  | ERR_NOT_DIR | ERR_NOT_SUPPORTED | ERR_OUT_OF_RANGE | ERR_NO_RESOURCES
  | ERR_BAD_HANDLE | ERR_ACCESS_DENIED | ERR_SHOULD_WAIT | ERR_FILE_BIG | ERR_NO_SPACE
  | ERR_UNAVAILABLE | ERR_OTHER

abbreviation NO_ERROR :: mx_status where
  "NO_ERROR \<equiv> Val 0"

definition negative :: "mx_status \<Rightarrow> bool" where
  "negative s = (case s of Val _ \<Rightarrow> False | _ \<Rightarrow> True)"

definition status_value :: "mx_status \<Rightarrow> int" where
  "status_value s = (case s of Val n \<Rightarrow> int n | _ \<Rightarrow> -1)"

datatype errno_t =
    ENOENT | ENOMEM | EINVAL | ETIMEDOUT | EEXIST | ENOTCONN | ENAMETOOLONG | EIO
  | ENOTDIR | ENOTSUP | EBADF | EACCES | EAGAIN | EFBIG | ENOSPC
  | EMFILE | ENOSYS | ENOTTY | ERANGE

fun mxio_status_to_errno :: "mx_status \<Rightarrow> errno_t" where
  "mxio_status_to_errno ERR_NOT_FOUND = ENOENT"
| "mxio_status_to_errno ERR_NO_MEMORY = ENOMEM"
| "mxio_status_to_errno ERR_INVALID_ARGS = EINVAL"
| "mxio_status_to_errno ERR_BUFFER_TOO_SMALL = EINVAL"
| "mxio_status_to_errno ERR_TIMED_OUT = ETIMEDOUT"
| "mxio_status_to_errno ERR_ALREADY_EXISTS = EEXIST"
| "mxio_status_to_errno ERR_REMOTE_CLOSED = ENOTCONN"
| "mxio_status_to_errno ERR_BAD_PATH = ENAMETOOLONG"
| "mxio_status_to_errno ERR_IO = EIO"
| "mxio_status_to_errno ERR_NOT_DIR = ENOTDIR"
| "mxio_status_to_errno ERR_NOT_SUPPORTED = ENOTSUP"
| "mxio_status_to_errno ERR_OUT_OF_RANGE = EINVAL"
| "mxio_status_to_errno ERR_NO_RESOURCES = ENOMEM"
| "mxio_status_to_errno ERR_BAD_HANDLE = EBADF"
| "mxio_status_to_errno ERR_ACCESS_DENIED = EACCES"
| "mxio_status_to_errno ERR_SHOULD_WAIT = EAGAIN"
| "mxio_status_to_errno ERR_FILE_BIG = EFBIG"
| "mxio_status_to_errno ERR_NO_SPACE = ENOSPC"
| "mxio_status_to_errno _ = EIO"

text \<open>
  The transports answer \<open>read\<close>, \<open>write\<close>, \<open>read_at\<close>, \<open>write_at\<close> and
  \<open>posix_ioctl\<close> with an \<open>ssize_t\<close>, which unistd.c stores in an \<open>mx_status_t\<close>
  (\<open>status = io->ops->read(io, buf, count)\<close>) or passes to \<open>STATUS\<close>. The conversion
  keeps the low 32 bits, so a result of \<open>2^31\<close> or more reads as another status:
  \<open>narrow_status\<close>. A negative one is the error constant with that number, if there
  is one; the numbers are those of \<open>magenta/errors.h\<close>, which is not among the
  sources at hand.
\<close>

definition status_of_code :: "int \<Rightarrow> mx_status" where
  "status_of_code k =
     (if k = -2 then ERR_NOT_SUPPORTED
      else if k = -3 then ERR_NO_RESOURCES
      else if k = -4 then ERR_NO_MEMORY
      else if k = -10 then ERR_INVALID_ARGS
      else if k = -11 then ERR_BAD_HANDLE
      else if k = -14 then ERR_OUT_OF_RANGE
      else if k = -15 then ERR_BUFFER_TOO_SMALL
      else if k = -21 then ERR_TIMED_OUT
      else if k = -22 then ERR_SHOULD_WAIT
      else if k = -24 then ERR_REMOTE_CLOSED
      else if k = -25 then ERR_NOT_FOUND
      else if k = -26 then ERR_ALREADY_EXISTS
      else if k = -28 then ERR_UNAVAILABLE
      else if k = -30 then ERR_ACCESS_DENIED
      else if k = -40 then ERR_IO
      else if k = -50 then ERR_BAD_PATH
      else if k = -51 then ERR_NOT_DIR
      else if k = -53 then ERR_FILE_BIG
      else if k = -54 then ERR_NO_SPACE
      else ERR_OTHER)"

definition narrow_status :: "mx_status \<Rightarrow> mx_status" where
  "narrow_status r =
     (case r of
        Val n \<Rightarrow>
          if n mod 2 ^ 32 < 2 ^ 31 then Val (n mod 2 ^ 32)
          else status_of_code (int (n mod 2 ^ 32) - 2 ^ 32)
      | _ \<Rightarrow> r)"

text \<open>
  An \<open>mxio_t*\<close> is an address; \<open>objs\<close> is the store of the objects, so that two
  fd slots holding the same pointer share one \<open>dupcount\<close>.

  Modelled from the spec: the struct \<open>mxio_t\<close> is declared in private.h, which is not
  at hand; section 3 of the specification gives it an atomic \<open>refcount\<close>, a \<open>dupcount\<close>
  and a flag word (the vtable pointer is the \<open>env\<close> record below).
\<close>

type_synonym ioref = nat

record mxio =
  refcount :: int
  dupcount :: int
  flags :: "32 word"

type_synonym mx_handle = "32 word"
type_synonym mx_signals = "32 word"

definition MX_HANDLE_INVALID :: mx_handle where
  "MX_HANDLE_INVALID = 0"

datatype mx_time = MX_TIME_INFINITE | MX_NSEC nat

definition MX_MSEC :: "nat \<Rightarrow> mx_time" where
  "MX_MSEC n = MX_NSEC (n * 1000000)"

text \<open>
  Modelled from the spec: \<open>MAX_MXIO_FD\<close> is defined in private.h; section 3 gives the
  table \<open>MAX_FD\<close> slots, 1024 by default.
\<close>

definition MAX_MXIO_FD :: int where
  "MAX_MXIO_FD = 1024"

text \<open>
  Modelled from the spec: the flag bits are defined in private.h. The source asserts
  \<open>MXIO_FLAG_CLOEXEC == FD_CLOEXEC\<close> and takes \<open>MXIO_FD_FLAGS\<close> as the fcntl-visible
  subset; \<open>MXIO_FLAG_NONBLOCK\<close> is one further bit of the flag word.
\<close>

definition MXIO_FLAG_CLOEXEC :: "32 word" where
  "MXIO_FLAG_CLOEXEC = 1"

definition MXIO_FD_FLAGS :: "32 word" where
  "MXIO_FD_FLAGS = MXIO_FLAG_CLOEXEC"

definition MXIO_FLAG_NONBLOCK :: "32 word" where
  "MXIO_FLAG_NONBLOCK = 64"

text \<open>Constants of the C library headers (fcntl.h, poll.h, sys/epoll.h, sys/stat.h).\<close>

definition O_CREAT :: "32 word" where "O_CREAT = 0x40"
definition O_EXCL :: "32 word" where "O_EXCL = 0x80"
definition O_NONBLOCK :: "32 word" where "O_NONBLOCK = 0x800"
definition O_DIRECTORY :: "32 word" where "O_DIRECTORY = 0x10000"
definition O_CLOEXEC :: "32 word" where "O_CLOEXEC = 0x80000"
definition AT_FDCWD :: int where "AT_FDCWD = -100"
definition POLLNVAL :: "16 word" where "POLLNVAL = 0x20"
definition EPOLLIN :: "32 word" where "EPOLLIN = 0x1"
definition EPOLLOUT :: "32 word" where "EPOLLOUT = 0x4"
definition EPOLLERR :: "32 word" where "EPOLLERR = 0x8"
definition EPOLLHUP :: "32 word" where "EPOLLHUP = 0x10"
definition MAX_POLL_NFDS :: nat where "MAX_POLL_NFDS = 1024"

text \<open>\<open>MXIO_EVT_READABLE\<close> and \<open>MXIO_EVT_WRITABLE\<close> of mxio/io.h are the epoll bits.\<close>

definition MXIO_EVT_READABLE :: "32 word" where "MXIO_EVT_READABLE = EPOLLIN"
definition MXIO_EVT_WRITABLE :: "32 word" where "MXIO_EVT_WRITABLE = EPOLLOUT"

subsection \<open>The transports and the kernel\<close>

text \<open>
  The vtable operations and the kernel calls are outside unistd.c. They are the fields
  of an environment \<open>E\<close>: each takes its arguments and the state \<open>'w\<close> of the outside
  world (pipes, remote servers, the kernel) and returns its result with the new world.
  The dispatch through \<open>io->ops\<close> is the \<open>ioref\<close> argument. Bytes moved through
  buffers are not modelled: a buffer is its address. An outside operation changes the
  world only: the fd table and the \<open>refcount\<close>, \<open>dupcount\<close> and \<open>flags\<close> of the
  objects are written by unistd.c alone, and one call runs at a time.
\<close>

datatype misc_op = MXRIO_STAT | MXRIO_SETATTR | MXRIO_SYNC | MXRIO_TRUNCATE | MXRIO_READDIR

datatype misc_data = No_data | Vnattr "32 word" int

record 'w env =
  ops_close :: "ioref \<Rightarrow> 'w \<Rightarrow> mx_status \<times> 'w"
  ops_read :: "ioref \<Rightarrow> nat \<Rightarrow> nat \<Rightarrow> 'w \<Rightarrow> mx_status \<times> 'w"
  ops_write :: "ioref \<Rightarrow> nat \<Rightarrow> nat \<Rightarrow> 'w \<Rightarrow> mx_status \<times> 'w"
  ops_read_at :: "ioref \<Rightarrow> nat \<Rightarrow> nat \<Rightarrow> int \<Rightarrow> 'w \<Rightarrow> mx_status \<times> 'w"
  ops_write_at :: "ioref \<Rightarrow> nat \<Rightarrow> nat \<Rightarrow> int \<Rightarrow> 'w \<Rightarrow> mx_status \<times> 'w"
  ops_seek :: "ioref \<Rightarrow> int \<Rightarrow> int \<Rightarrow> 'w \<Rightarrow> mx_status \<times> 'w"
  ops_misc :: "ioref \<Rightarrow> misc_op \<Rightarrow> int \<Rightarrow> nat \<Rightarrow> misc_data \<Rightarrow> 'w \<Rightarrow> mx_status \<times> 'w"
  ops_open :: "ioref \<Rightarrow> string \<Rightarrow> 32 word \<Rightarrow> 32 word \<Rightarrow> 'w \<Rightarrow> (mx_status \<times> ioref) \<times> 'w"
  ops_posix_ioctl :: "ioref \<Rightarrow> int \<Rightarrow> 'w \<Rightarrow> mx_status \<times> 'w"
  ops_wait_begin :: "ioref \<Rightarrow> 32 word \<Rightarrow> 'w \<Rightarrow> (mx_handle \<times> mx_signals) \<times> 'w"
  ops_wait_end :: "ioref \<Rightarrow> mx_signals \<Rightarrow> 'w \<Rightarrow> 32 word \<times> 'w"
  mx_object_wait_one :: "mx_handle \<Rightarrow> mx_signals \<Rightarrow> mx_time \<Rightarrow> 'w \<Rightarrow> (mx_status \<times> mx_signals) \<times> 'w"
  mx_object_wait_many :: "(mx_handle \<times> mx_signals) list \<Rightarrow> mx_time \<Rightarrow> 'w \<Rightarrow> (mx_status \<times> mx_signals list) \<times> 'w"
  mx_time_get :: "'w \<Rightarrow> int \<times> 'w"

text \<open>
  Every call that leaves unistd.c is also appended to a log, with the result where a
  claim speaks about it, so that "is never invoked" and "is invoked with" can be
  stated.
\<close>

datatype call =
    Call_close ioref
  | Call_read ioref nat mx_status
  | Call_write ioref nat mx_status
  | Call_read_at ioref nat int mx_status
  | Call_write_at ioref nat int mx_status
  | Call_seek ioref int int
  | Call_misc ioref misc_op
  | Call_open ioref string "32 word" "32 word"
  | Call_posix_ioctl ioref int
  | Call_wait_begin ioref "32 word" mx_handle mx_signals
  | Call_wait_end ioref mx_signals "32 word"
  | Call_wait_one mx_handle mx_signals mx_time
  | Call_wait_many "(mx_handle \<times> mx_signals) list" mx_time mx_status
  | Call_time_get
  | Call_free ioref

subsection \<open>The process-wide state\<close>

text \<open>
  \<open>__mxio_global_state\<close> with the store of io objects, \<open>errno\<close>, the outside world
  and the log. \<open>mxio_fdtab\<close> is an array of \<open>MAX_MXIO_FD\<close> pointers: only the indices
  \<open>0 \<le> fd < MAX_MXIO_FD\<close> are slots of the table, and reading or writing
  \<open>mxio_fdtab[fd]\<close> at any other index is outside the array.
\<close>

record 'w mxio_state =
  mxio_fdtab :: "int \<Rightarrow> ioref option"
  objs :: "ioref \<Rightarrow> mxio"
  mxio_root_handle :: "ioref option"
  mxio_cwd_handle :: "ioref option"
  mxio_cwd_path :: string
  errno :: "errno_t option"
  world :: 'w
  calls :: "call list"

text \<open>
  A C function either returns or runs into undefined behaviour (an array access
  outside the array, a dereference of NULL).
\<close>

datatype 'a outcome = Undefined_Behaviour | Returns 'a

definition fdtab_at :: "'w mxio_state \<Rightarrow> int \<Rightarrow> ioref option outcome" where
  "fdtab_at st fd =
     (if 0 \<le> fd \<and> fd < MAX_MXIO_FD then Returns (mxio_fdtab st fd) else Undefined_Behaviour)"

text \<open>
  Modelled from the spec: \<open>ERRNO\<close>, \<open>ERROR\<close> and \<open>STATUS\<close> come from the private
  header unistd.h. Section 6: a POSIX function returns -1 with errno set on failure
  and a value \<open>\<ge> 0\<close> on success; section 7: a kernel status is translated through
  \<open>mxio_status_to_errno\<close> at the POSIX boundary.
\<close>

definition ERRNO :: "errno_t \<Rightarrow> 'w mxio_state \<Rightarrow> int \<times> 'w mxio_state" where
  "ERRNO e st = (-1, st\<lparr>errno := Some e\<rparr>)"

definition ERROR :: "mx_status \<Rightarrow> 'w mxio_state \<Rightarrow> int \<times> 'w mxio_state" where
  "ERROR status st = (-1, st\<lparr>errno := Some (mxio_status_to_errno status)\<rparr>)"

definition STATUS :: "mx_status \<Rightarrow> 'w mxio_state \<Rightarrow> int \<times> 'w mxio_state" where
  "STATUS status st = (if negative status then ERROR status st else (status_value status, st))"

text \<open>
  Modelled from the spec: \<open>mxio_acquire\<close> and \<open>mxio_release\<close> are inline functions of
  private.h. Section 5: a lookup increments \<open>refcount\<close>; a release decrements it, and
  the release that takes it from 1 to 0 frees the object.
\<close>

definition mxio_acquire :: "ioref \<Rightarrow> 'w mxio_state \<Rightarrow> 'w mxio_state" where
  "mxio_acquire io st = st\<lparr>objs := (objs st)(io := (objs st io)\<lparr>refcount := refcount (objs st io) + 1\<rparr>)\<rparr>"

definition mxio_release :: "ioref \<Rightarrow> 'w mxio_state \<Rightarrow> 'w mxio_state" where
  "mxio_release io st =
     (let old = refcount (objs st io);
          st1 = st\<lparr>objs := (objs st)(io := (objs st io)\<lparr>refcount := old - 1\<rparr>)\<rparr>
      in if old = 1 then st1\<lparr>calls := calls st1 @ [Call_free io]\<rparr> else st1)"

definition set_dupcount :: "ioref \<Rightarrow> int \<Rightarrow> 'w mxio_state \<Rightarrow> 'w mxio_state" where
  "set_dupcount io n st = st\<lparr>objs := (objs st)(io := (objs st io)\<lparr>dupcount := n\<rparr>)\<rparr>"

definition set_flags :: "ioref \<Rightarrow> 32 word \<Rightarrow> 'w mxio_state \<Rightarrow> 'w mxio_state" where
  "set_flags io f st = st\<lparr>objs := (objs st)(io := (objs st io)\<lparr>flags := f\<rparr>)\<rparr>"

definition set_slot :: "int \<Rightarrow> ioref option \<Rightarrow> 'w mxio_state \<Rightarrow> 'w mxio_state" where
  "set_slot fd p st = st\<lparr>mxio_fdtab := (mxio_fdtab st)(fd := p)\<rparr>"

text \<open>A call into the environment: run it on the world, log it.\<close>

definition outside :: "('w \<Rightarrow> 'r \<times> 'w) \<Rightarrow> ('r \<Rightarrow> call) \<Rightarrow> 'w mxio_state \<Rightarrow> 'r \<times> 'w mxio_state" where
  "outside f c st =
     (case f (world st) of
        (r, w) \<Rightarrow> (r, st\<lparr>world := w, calls := calls st @ [c r]\<rparr>))"

section \<open>The fd table (unistd.c, lines 59-149 and 782-838)\<close>

text \<open>
  The scan \<open>for (fd = starting_fd; fd < MAX_MXIO_FD; fd++)\<close> of
  \<open>mxio_bind_to_fd\<close>: \<open>Some fd\<close> is the jump to \<open>free_fd_found\<close>, \<open>None\<close> the
  normal end of the loop. The loop reads \<open>mxio_fdtab[fd]\<close> without a lower bound.
\<close>

function scan_free_fd :: "'w mxio_state \<Rightarrow> int \<Rightarrow> int option outcome" where
  "scan_free_fd st fd =
     (if fd < MAX_MXIO_FD then
        (case fdtab_at st fd of
           Undefined_Behaviour \<Rightarrow> Undefined_Behaviour
         | Returns None \<Rightarrow> Returns (Some fd)
         | Returns (Some _) \<Rightarrow> scan_free_fd st (fd + 1))
      else Returns None)"
  by pat_completeness auto
termination
  by (relation "measure (\<lambda>(st, fd). nat (MAX_MXIO_FD - fd))") auto

declare scan_free_fd.simps [simp del]

text \<open>The label \<open>free_fd_found\<close>: \<open>io->dupcount++; mxio_fdtab[fd] = io\<close>.\<close>

definition install_fd :: "ioref \<Rightarrow> int \<Rightarrow> 'w mxio_state \<Rightarrow> 'w mxio_state" where
  "install_fd io fd st = set_slot fd (Some io) (set_dupcount io (dupcount (objs st io) + 1) st)"

definition call_close :: "'w env \<Rightarrow> ioref \<Rightarrow> 'w mxio_state \<Rightarrow> mx_status \<times> 'w mxio_state" where
  "call_close E io st = outside (ops_close E io) (\<lambda>r. Call_close io) st"

definition mxio_bind_to_fd ::
  "'w env \<Rightarrow> ioref \<Rightarrow> int \<Rightarrow> int \<Rightarrow> 'w mxio_state \<Rightarrow> (int \<times> 'w mxio_state) outcome" where
  "mxio_bind_to_fd E io fd starting_fd st =
     (if fd < 0 then
        (case scan_free_fd st starting_fd of
           Undefined_Behaviour \<Rightarrow> Undefined_Behaviour
         | Returns (Some fd') \<Rightarrow> Returns (fd', install_fd io fd' st)
         | Returns None \<Rightarrow> Returns (-1, st\<lparr>errno := Some EMFILE\<rparr>))
      else if fd \<ge> MAX_MXIO_FD then Returns (-1, st\<lparr>errno := Some EINVAL\<rparr>)
      else
        (case mxio_fdtab st fd of
           None \<Rightarrow> Returns (fd, install_fd io fd st)
         | Some io_to_close \<Rightarrow>
             (let st1 = set_dupcount io_to_close (dupcount (objs st io_to_close) - 1) st
              in if dupcount (objs st1 io_to_close) > 0
                 then Returns (fd, install_fd io fd (mxio_release io_to_close st1))
                 else (let st2 = install_fd io fd st1;
                           st3 = snd (call_close E io_to_close st2)
                       in Returns (fd, mxio_release io_to_close st3)))))"

definition mxio_unbind_from_fd ::
  "int \<Rightarrow> 'w mxio_state \<Rightarrow> (mx_status \<times> ioref option \<times> 'w mxio_state) outcome" where
  "mxio_unbind_from_fd fd st =
     (if fd \<ge> MAX_MXIO_FD then Returns (ERR_INVALID_ARGS, None, st)
      else
        (case fdtab_at st fd of
           Undefined_Behaviour \<Rightarrow> Undefined_Behaviour
         | Returns None \<Rightarrow> Returns (ERR_INVALID_ARGS, None, st)
         | Returns (Some io) \<Rightarrow>
             if dupcount (objs st io) > 1 then Returns (ERR_UNAVAILABLE, None, st)
             else if refcount (objs st io) > 1 then Returns (ERR_UNAVAILABLE, None, st)
             else Returns (NO_ERROR, Some io, set_slot fd None (set_dupcount io 0 st))))"

text \<open>\<open>__mxio_fd_to_io\<close>; \<open>fd_to_io\<close> of private.h is a macro for it.\<close>

definition fd_to_io :: "int \<Rightarrow> 'w mxio_state \<Rightarrow> ioref option \<times> 'w mxio_state" where
  "fd_to_io fd st =
     (if fd < 0 \<or> fd \<ge> MAX_MXIO_FD then (None, st)
      else
        (case mxio_fdtab st fd of
           Some io \<Rightarrow> (Some io, mxio_acquire io st)
         | None \<Rightarrow> (None, st)))"

definition close :: "'w env \<Rightarrow> int \<Rightarrow> 'w mxio_state \<Rightarrow> int \<times> 'w mxio_state" where
  "close E fd st =
     (if fd < 0 \<or> fd \<ge> MAX_MXIO_FD \<or> mxio_fdtab st fd = None then ERRNO EBADF st
      else
        (case mxio_fdtab st fd of
           None \<Rightarrow> ERRNO EBADF st
         | Some io \<Rightarrow>
             (let st1 = set_slot fd None (set_dupcount io (dupcount (objs st io) - 1) st)
              in if dupcount (objs st1 io) > 0 then (0, mxio_release io st1)
                 else (case call_close E io st1 of
                         (r, st2) \<Rightarrow> STATUS r (mxio_release io st2)))))"

definition mxio_dup ::
  "'w env \<Rightarrow> int \<Rightarrow> int \<Rightarrow> int \<Rightarrow> 'w mxio_state \<Rightarrow> (int \<times> 'w mxio_state) outcome" where
  "mxio_dup E oldfd newfd starting_fd st =
     (case fd_to_io oldfd st of
        (None, st1) \<Rightarrow> Returns (ERRNO EBADF st1)
      | (Some io, st1) \<Rightarrow>
          (case mxio_bind_to_fd E io newfd starting_fd st1 of
             Undefined_Behaviour \<Rightarrow> Undefined_Behaviour
           | Returns (fd, st2) \<Rightarrow>
               if fd < 0 then Returns (fd, mxio_release io st2) else Returns (fd, st2)))"

subsection \<open>Unbinding\<close>

text \<open>
  For an fd inside the table \<open>mxio_unbind_from_fd\<close> does what its comment says: an
  empty slot and an fd at or above \<open>MAX_MXIO_FD\<close> give \<open>ERR_INVALID_ARGS\<close>, a dup'd
  or busy object gives \<open>ERR_UNAVAILABLE\<close> with the state untouched, and the only
  holder gets the object back with \<open>dupcount\<close> 0 and the slot cleared.
\<close>

lemma unbind_in_table:
  assumes "0 \<le> fd"
  shows "(fd \<ge> MAX_MXIO_FD \<or> mxio_fdtab st fd = None \<longrightarrow>
            mxio_unbind_from_fd fd st = Returns (ERR_INVALID_ARGS, None, st))
       \<and> (fd < MAX_MXIO_FD \<and> mxio_fdtab st fd = Some io \<and>
            (dupcount (objs st io) > 1 \<or> refcount (objs st io) > 1) \<longrightarrow>
            mxio_unbind_from_fd fd st = Returns (ERR_UNAVAILABLE, None, st))
       \<and> (fd < MAX_MXIO_FD \<and> mxio_fdtab st fd = Some io \<and>
            dupcount (objs st io) = 1 \<and> refcount (objs st io) = 1 \<longrightarrow>
            (\<exists>st'. mxio_unbind_from_fd fd st = Returns (NO_ERROR, Some io, st')
                 \<and> mxio_fdtab st' = (mxio_fdtab st)(fd := None)
                 \<and> dupcount (objs st' io) = 0
                 \<and> refcount (objs st' io) = 1
                 \<and> (\<forall>p. p \<noteq> io \<longrightarrow> objs st' p = objs st p)))"
  using assms
  by (auto simp: mxio_unbind_from_fd_def fdtab_at_def set_slot_def set_dupcount_def)

lemma unbind_below_table: "fd < 0 \<Longrightarrow> mxio_unbind_from_fd fd st = Undefined_Behaviour"
  by (simp add: mxio_unbind_from_fd_def fdtab_at_def MAX_MXIO_FD_def)

text \<open>
  Claim C1: for every fd, \<open>mxio_unbind_from_fd(fd)\<close> gives \<open>ERR_UNAVAILABLE\<close> for a
  shared or busy object, hands the object over when it is the only reference, and
  gives \<open>ERR_INVALID_ARGS\<close> for an fd that is out of range or unbound.

  The function tests only \<open>fd >= MAX_MXIO_FD\<close> before it reads \<open>mxio_fdtab[fd]\<close>
  (\<open>__mxio_fd_to_io\<close> and \<open>close\<close> test \<open>fd < 0\<close> as well). At the negative fd -1,
  which is out of range, it does not return \<open>ERR_INVALID_ARGS\<close>: it reads the array
  below its first element, whatever the state.
\<close>

theorem unbind_negative_fd_reads_outside_table:
  "mxio_unbind_from_fd (-1) st = Undefined_Behaviour"
  by (simp add: mxio_unbind_from_fd_def fdtab_at_def MAX_MXIO_FD_def)

subsection \<open>Binding\<close>

lemma scan_free_fd_result:
  "0 \<le> s \<Longrightarrow>
   (case scan_free_fd st s of
      Undefined_Behaviour \<Rightarrow> False
    | Returns None \<Rightarrow> (\<forall>g. s \<le> g \<and> g < MAX_MXIO_FD \<longrightarrow> mxio_fdtab st g \<noteq> None)
    | Returns (Some f) \<Rightarrow>
        s \<le> f \<and> f < MAX_MXIO_FD \<and> mxio_fdtab st f = None \<and>
        (\<forall>g. s \<le> g \<and> g < f \<longrightarrow> mxio_fdtab st g \<noteq> None))"
proof (induction st s rule: scan_free_fd.induct)
  case (1 st fd)
  show ?case
  proof (cases "fd < MAX_MXIO_FD")
    case False
    then show ?thesis by (subst scan_free_fd.simps) auto
  next
    case True
    with "1.prems" have at: "fdtab_at st fd = Returns (mxio_fdtab st fd)"
      by (simp add: fdtab_at_def)
    show ?thesis
    proof (cases "mxio_fdtab st fd")
      case None
      with True at show ?thesis by (subst scan_free_fd.simps) auto
    next
      case (Some io)
      have eq: "scan_free_fd st fd = scan_free_fd st (fd + 1)"
        using True at Some by (subst scan_free_fd.simps) simp
      have ih: "(case scan_free_fd st (fd + 1) of
          Undefined_Behaviour \<Rightarrow> False
        | Returns None \<Rightarrow> (\<forall>g. fd + 1 \<le> g \<and> g < MAX_MXIO_FD \<longrightarrow> mxio_fdtab st g \<noteq> None)
        | Returns (Some f) \<Rightarrow>
            fd + 1 \<le> f \<and> f < MAX_MXIO_FD \<and> mxio_fdtab st f = None \<and>
            (\<forall>g. fd + 1 \<le> g \<and> g < f \<longrightarrow> mxio_fdtab st g \<noteq> None))"
        using "1.IH"[OF True at Some] "1.prems" by simp
      have step: "\<And>g. fd \<le> g \<Longrightarrow> g = fd \<or> fd + 1 \<le> g" by arith
      show ?thesis
        unfolding eq using ih Some
        by (auto split: outcome.splits option.splits dest: step)
    qed
  qed
qed

lemma install_fd_slots:
  "mxio_fdtab (install_fd io f st) = (mxio_fdtab st)(f := Some io)
   \<and> dupcount (objs (install_fd io f st) io) = dupcount (objs st io) + 1
   \<and> refcount (objs (install_fd io f st) io) = refcount (objs st io)
   \<and> (\<forall>p. p \<noteq> io \<longrightarrow> objs (install_fd io f st) p = objs st p)"
  by (simp add: install_fd_def set_slot_def set_dupcount_def)

text \<open>
  With a starting fd inside the table, a negative desired fd takes the lowest free slot
  from \<open>starting_fd\<close> on, or fails with \<open>EMFILE\<close> and an unchanged table when there is
  none; a desired fd at or above \<open>MAX_MXIO_FD\<close> fails with \<open>EINVAL\<close>.
\<close>

lemma bind_lowest_free:
  assumes "fd < 0" and "0 \<le> starting_fd"
  shows "(\<exists>f. mxio_bind_to_fd E io fd starting_fd st = Returns (f, install_fd io f st)
             \<and> starting_fd \<le> f \<and> f < MAX_MXIO_FD \<and> mxio_fdtab st f = None
             \<and> (\<forall>g. starting_fd \<le> g \<and> g < f \<longrightarrow> mxio_fdtab st g \<noteq> None))
       \<or> (mxio_bind_to_fd E io fd starting_fd st = Returns (-1, st\<lparr>errno := Some EMFILE\<rparr>)
             \<and> (\<forall>g. starting_fd \<le> g \<and> g < MAX_MXIO_FD \<longrightarrow> mxio_fdtab st g \<noteq> None))"
  using assms scan_free_fd_result[OF assms(2), of st]
  by (auto simp: mxio_bind_to_fd_def split: outcome.splits option.splits)

lemma bind_desired_too_large:
  "fd \<ge> MAX_MXIO_FD \<Longrightarrow>
   mxio_bind_to_fd E io fd starting_fd st = Returns (-1, st\<lparr>errno := Some EINVAL\<rparr>)"
  by (simp add: mxio_bind_to_fd_def MAX_MXIO_FD_def)

lemma bind_scan_below_table:
  "fd < 0 \<Longrightarrow> starting_fd < 0 \<Longrightarrow>
   mxio_bind_to_fd E io fd starting_fd st = Undefined_Behaviour"
  by (simp add: mxio_bind_to_fd_def scan_free_fd.simps fdtab_at_def MAX_MXIO_FD_def)

text \<open>
  Claim C2: \<open>mxio_bind_to_fd(io, desired_fd, starting_fd)\<close> with \<open>desired_fd < 0\<close>
  installs io at the lowest free slot with index in \<open>[starting_fd, MAX_FD)\<close> or fails
  with \<open>EMFILE\<close>; with \<open>desired_fd \<ge> MAX_FD\<close> it fails with \<open>EINVAL\<close>.

  \<open>fcntl(fd, F_DUPFD, arg)\<close> passes the caller's \<open>arg\<close> as \<open>starting_fd\<close> unchecked.
  With \<open>starting_fd = -1\<close> the scan starts by reading \<open>mxio_fdtab[-1]\<close>, below the
  first slot: the call neither returns a slot index nor fails with \<open>EMFILE\<close>.
\<close>

theorem bind_negative_starting_fd_reads_outside_table:
  "mxio_bind_to_fd E io (-1) (-1) st = Undefined_Behaviour"
  by (simp add: mxio_bind_to_fd_def scan_free_fd.simps fdtab_at_def MAX_MXIO_FD_def)

section \<open>Path routing, open and the cwd (unistd.c, lines 174-218, 1021-1064, 1240-1283)\<close>

text \<open>
  \<open>mxio_iodir\<close>: the directory object for a path and its residual path. A NULL
  \<open>const char*\<close> is \<open>None\<close>; \<open>mxio_iodir\<close> is only called on a non-NULL path.
\<close>

definition mxio_iodir ::
  "string \<Rightarrow> int \<Rightarrow> 'w mxio_state \<Rightarrow> ioref option \<times> string \<times> 'w mxio_state" where
  "mxio_iodir path dirfd st =
     (case (if path \<noteq> [] \<and> hd path = CHR ''/''
            then (mxio_root_handle st, if tl path = [] then ''.'' else tl path)
            else if dirfd = AT_FDCWD then (mxio_cwd_handle st, path)
            else if dirfd \<ge> 0 \<and> dirfd < MAX_MXIO_FD then (mxio_fdtab st dirfd, path)
            else (None, path)) of
        (Some iodir, path') \<Rightarrow> (Some iodir, path', mxio_acquire iodir st)
      | (None, path') \<Rightarrow> (None, path', st))"

text \<open>
  Modelled from the spec: the transport's \<open>open\<close> builds the new object with a
  constructor that is not in unistd.c; section 5 says a constructor produces
  \<open>refcount = 1\<close> and \<open>dupcount = 0\<close>.
\<close>

definition constructed :: mxio where
  "constructed = \<lparr>refcount = 1, dupcount = 0, flags = 0\<rparr>"

definition call_open ::
  "'w env \<Rightarrow> ioref \<Rightarrow> string \<Rightarrow> 32 word \<Rightarrow> 32 word \<Rightarrow> 'w mxio_state
   \<Rightarrow> (mx_status \<times> ioref) \<times> 'w mxio_state" where
  "call_open E iodir path fl mode st =
     (case outside (ops_open E iodir path fl mode) (\<lambda>r. Call_open iodir path fl mode) st of
        ((r, io), st1) \<Rightarrow>
          ((r, io), if negative r then st1 else st1\<lparr>objs := (objs st1)(io := constructed)\<rparr>))"

definition mxio_open_at ::
  "'w env \<Rightarrow> int \<Rightarrow> string option \<Rightarrow> 32 word \<Rightarrow> 32 word \<Rightarrow> 'w mxio_state
   \<Rightarrow> mx_status \<times> ioref \<times> 'w mxio_state" where
  "mxio_open_at E dirfd path fl mode st =
     (case path of
        None \<Rightarrow> (ERR_INVALID_ARGS, 0, st)
      | Some p \<Rightarrow>
          if p = [] then (ERR_INVALID_ARGS, 0, st)
          else
            (case mxio_iodir p dirfd st of
               (None, _, st1) \<Rightarrow> (ERR_BAD_HANDLE, 0, st1)
             | (Some iodir, p', st1) \<Rightarrow>
                 (case call_open E iodir p' fl mode st1 of
                    ((r, io), st2) \<Rightarrow> (r, io, mxio_release iodir st2))))"

definition mxio_open ::
  "'w env \<Rightarrow> string option \<Rightarrow> 32 word \<Rightarrow> 32 word \<Rightarrow> 'w mxio_state
   \<Rightarrow> mx_status \<times> ioref \<times> 'w mxio_state" where
  "mxio_open E path fl mode st = mxio_open_at E AT_FDCWD path fl mode st"

text \<open>
  \<open>vopenat\<close>; \<open>mode_arg\<close> is the variadic argument that \<open>va_arg\<close> reads when
  \<open>O_CREAT\<close> is set (\<open>0x1FF\<close> is octal 0777), and \<open>vopenat_opened\<close> is the function
  from the call of \<open>__mxio_open_at\<close> on.
\<close>

definition vopenat_opened ::
  "'w env \<Rightarrow> int \<Rightarrow> string option \<Rightarrow> 32 word \<Rightarrow> 32 word \<Rightarrow> 'w mxio_state
   \<Rightarrow> (int \<times> 'w mxio_state) outcome" where
  "vopenat_opened E dirfd path fl mode st =
     (case mxio_open_at E dirfd path fl mode st of
        (r, io, st1) \<Rightarrow>
          if negative r then Returns (ERROR r st1)
          else
            (let st2 = (if fl AND O_NONBLOCK \<noteq> 0
                        then set_flags io (flags (objs st1 io) OR MXIO_FLAG_NONBLOCK) st1
                        else st1)
             in case mxio_bind_to_fd E io (-1) 0 st2 of
                  Undefined_Behaviour \<Rightarrow> Undefined_Behaviour
                | Returns (fd, st3) \<Rightarrow>
                    if fd < 0
                    then Returns (ERRNO EMFILE (mxio_release io (snd (call_close E io st3))))
                    else Returns (fd, st3)))"

definition vopenat ::
  "'w env \<Rightarrow> int \<Rightarrow> string option \<Rightarrow> 32 word \<Rightarrow> 32 word \<Rightarrow> 'w mxio_state
   \<Rightarrow> (int \<times> 'w mxio_state) outcome" where
  "vopenat E dirfd path fl mode_arg st =
     (if fl AND O_CREAT \<noteq> 0 then
        (if fl AND O_DIRECTORY \<noteq> 0 then Returns (ERRNO EINVAL st)
         else vopenat_opened E dirfd path fl (mode_arg AND 0x1FF) st)
      else vopenat_opened E dirfd path fl 0 st)"

definition "open" ::
  "'w env \<Rightarrow> string option \<Rightarrow> 32 word \<Rightarrow> 32 word \<Rightarrow> 'w mxio_state
   \<Rightarrow> (int \<times> 'w mxio_state) outcome" where
  "open E path fl mode_arg st = vopenat E AT_FDCWD path fl mode_arg st"

definition openat ::
  "'w env \<Rightarrow> int \<Rightarrow> string option \<Rightarrow> 32 word \<Rightarrow> 32 word \<Rightarrow> 'w mxio_state
   \<Rightarrow> (int \<times> 'w mxio_state) outcome" where
  "openat E dirfd path fl mode_arg st = vopenat E dirfd path fl mode_arg st"

text \<open>
  \<open>chdir\<close>. After a successful open the path is not NULL. \<open>old->ops->close(old)\<close>
  dereferences the previous cwd handle.
\<close>

definition chdir ::
  "'w env \<Rightarrow> string option \<Rightarrow> 'w mxio_state \<Rightarrow> (int \<times> 'w mxio_state) outcome" where
  "chdir E path st =
     (case mxio_open E path O_DIRECTORY 0 st of
        (r, io, st1) \<Rightarrow>
          if negative r then Returns (STATUS r st1)
          else
            (case path of
               None \<Rightarrow> Undefined_Behaviour
             | Some p \<Rightarrow>
                 (let st2 = st1\<lparr>mxio_cwd_path := update_cwd_path (mxio_cwd_path st1) p\<rparr>
                  in case mxio_cwd_handle st2 of
                       None \<Rightarrow> Undefined_Behaviour
                     | Some old \<Rightarrow>
                         (let st3 = st2\<lparr>mxio_cwd_handle := Some io\<rparr>;
                              st4 = snd (call_close E old st3)
                          in Returns (0, mxio_release old st4)))))"

text \<open>
  \<open>getcwd\<close>: \<open>buf\<close> is \<open>None\<close> for a NULL buffer (the result is then a fresh copy
  made by \<open>strdup\<close>, whose allocation is taken to succeed); the result \<open>None\<close> is a
  NULL return.
\<close>

definition getcwd ::
  "nat option \<Rightarrow> nat \<Rightarrow> 'w mxio_state \<Rightarrow> string option \<times> 'w mxio_state" where
  "getcwd buf sz st =
     (if buf \<noteq> None \<and> sz = 0 then (None, st\<lparr>errno := Some EINVAL\<rparr>)
      else
        (let size' = (if buf = None then PATH_MAX else sz);
             len = length (mxio_cwd_path st) + 1
         in if len < size' then (Some (mxio_cwd_path st), st)
            else (None, st\<lparr>errno := Some ERANGE\<rparr>)))"

section \<open>A concrete environment and state\<close>

text \<open>
  A small world to run the functions on: the transport's \<open>read\<close> answers
  \<open>ERR_SHOULD_WAIT\<close> as many times as the world's counter says and then delivers,
  every other operation succeeds, and object 2 has no handle to wait on. Slots 0 and 1
  share object 1, slot 2 holds object 2, slot 3 holds the non-blocking object 3.
\<close>

definition demo_env :: "nat env" where
  "demo_env =
     \<lparr> ops_close = (\<lambda>io w. (NO_ERROR, w)),
       ops_read = (\<lambda>io buf n w. if w = 0 then (Val n, w) else (ERR_SHOULD_WAIT, w - 1)),
       ops_write = (\<lambda>io buf n w. (Val n, w)),
       ops_read_at = (\<lambda>io buf n off w. (Val n, w)),
       ops_write_at = (\<lambda>io buf n off w. (Val n, w)),
       ops_seek = (\<lambda>io off whence w. (Val (nat off), w)),
       ops_misc = (\<lambda>io op off n d w. (NO_ERROR, w)),
       ops_open = (\<lambda>io path fl mode w. ((NO_ERROR, 20), w)),
       ops_posix_ioctl = (\<lambda>io req w. (NO_ERROR, w)),
       ops_wait_begin = (\<lambda>io ev w. ((if io = 2 then MX_HANDLE_INVALID else 5, ev), w)),
       ops_wait_end = (\<lambda>io sigs w. (sigs, w)),
       mx_object_wait_one = (\<lambda>h sigs t w. ((NO_ERROR, sigs), w)),
       mx_object_wait_many = (\<lambda>items t w. ((NO_ERROR, map snd items), w)),
       mx_time_get = (\<lambda>w. (0, w)) \<rparr>"

definition demo_state :: "nat mxio_state" where
  "demo_state =
     \<lparr> mxio_fdtab = (\<lambda>fd. None)(0 := Some 1, 1 := Some 1, 2 := Some 2, 3 := Some 3),
       objs = (\<lambda>io. \<lparr>refcount = 1, dupcount = 0, flags = 0\<rparr>)
                (1 := \<lparr>refcount = 2, dupcount = 2, flags = 0\<rparr>,
                 2 := \<lparr>refcount = 1, dupcount = 1, flags = 0\<rparr>,
                 3 := \<lparr>refcount = 1, dupcount = 1, flags = MXIO_FLAG_NONBLOCK\<rparr>),
       mxio_root_handle = Some 10,
       mxio_cwd_handle = Some 11,
       mxio_cwd_path = ''/'',
       errno = None,
       world = 0,
       calls = [] \<rparr>"

section \<open>Normal forms of a path\<close>

text \<open>A segment that names a directory entry.\<close>

definition plain_segment :: "string \<Rightarrow> bool" where
  "plain_segment seg = (seg \<noteq> [] \<and> seg \<noteq> ''.'' \<and> seg \<noteq> ''..'')"

text \<open>
  The normal form as claim C8 words it: absolute, no "//", no "/./", no trailing
  slash except for the root.
\<close>

primrec contains :: "string \<Rightarrow> string \<Rightarrow> bool" where
  "contains sub [] = (sub = [])"
| "contains sub (c # cs) = (take (length sub) (c # cs) = sub \<or> contains sub cs)"

definition claimed_normal_form :: "string \<Rightarrow> bool" where
  "claimed_normal_form s =
     (absolute s \<and> \<not> contains ''//'' s \<and> \<not> contains ''/./'' s
      \<and> (s = ''/'' \<or> last s \<noteq> CHR ''/''))"

text \<open>
  The values of the cwd string. \<open>__mxio_global_state\<close> starts it as "/", and
  \<open>update_cwd_path\<close> is its only writer: once at start-up, with \<open>PWD\<close>, and then in
  every successful \<open>chdir\<close>. So a cwd string is \<open>cwd_after paths\<close> for the paths of
  these calls.
\<close>

definition cwd_after :: "string list \<Rightarrow> string" where
  "cwd_after paths = foldl update_cwd_path ''/'' paths"

text \<open>
  What the loop can build from "/": segments other than "", "." and ".." without a
  slash, each appended when it fitted. A cwd string that is not of this kind is a
  sentinel "(unknown)" or an extension of one, and does not start with a slash.
  \<open>run_opt\<close> is \<open>run_segments\<close> with the sentinel kept apart.
\<close>

inductive built :: "string \<Rightarrow> bool" where
  built_root: "built ''/''"
| built_append:
    "built c \<Longrightarrow> plain_segment seg \<Longrightarrow> CHR ''/'' \<notin> set seg \<Longrightarrow> \<not> does_not_fit c seg \<Longrightarrow>
     built (append_segment c seg)"

definition relative_cwd :: "string \<Rightarrow> bool" where
  "relative_cwd c = (c \<noteq> [] \<and> hd c \<noteq> CHR ''/'')"

definition cwd_inv :: "string \<Rightarrow> bool" where
  "cwd_inv c = (built c \<or> relative_cwd c)"

fun run_opt :: "(string \<Rightarrow> string \<Rightarrow> string option) \<Rightarrow> string \<Rightarrow> string list \<Rightarrow> string option" where
  "run_opt step cwd [] = Some cwd"
| "run_opt step cwd (s # ss) =
     (case step cwd s of None \<Rightarrow> None | Some c \<Rightarrow> run_opt step c ss)"


section \<open>Properties of the cwd string: the segment-wise reading\<close>

lemma update_cwd_path_by_segments:
  "absolute cwd \<or> absolute path \<Longrightarrow>
   update_cwd_path cwd path = normalise_by does_not_fit cwd path"
  by (cases path)
     (auto simp: update_cwd_path_def normalise_by_def cwd_loop_segments absolute_root
        cwd_loop_Nil absolute_def)

subsection \<open>chdir and the cwd string\<close>

lemma cwd_path_release [simp]: "mxio_cwd_path (mxio_release io st) = mxio_cwd_path st"
  by (simp add: mxio_release_def Let_def)

lemma cwd_path_acquire [simp]: "mxio_cwd_path (mxio_acquire io st) = mxio_cwd_path st"
  by (simp add: mxio_acquire_def)

lemma cwd_path_outside [simp]: "mxio_cwd_path (snd (outside f c st)) = mxio_cwd_path st"
  by (simp add: outside_def split: prod.splits)

lemma cwd_path_open_at:
  "mxio_open_at E dirfd path fl mode st = (r, io, st') \<Longrightarrow> mxio_cwd_path st' = mxio_cwd_path st"
  by (auto simp: mxio_open_at_def mxio_iodir_def call_open_def outside_def
        split: option.splits if_splits prod.splits)

lemma chdir_cwd_path:
  assumes "chdir E (Some p) st = Returns (r, st')"
  shows "mxio_cwd_path st' =
           (if r = 0 then update_cwd_path (mxio_cwd_path st) p else mxio_cwd_path st)"
proof -
  obtain r1 io st1 where o: "mxio_open E (Some p) O_DIRECTORY 0 st = (r1, io, st1)"
    by (cases "mxio_open E (Some p) O_DIRECTORY 0 st") auto
  then have p1: "mxio_cwd_path st1 = mxio_cwd_path st"
    by (auto simp: mxio_open_def dest: cwd_path_open_at)
  show ?thesis
    using assms o p1
    by (auto simp: chdir_def Let_def STATUS_def ERROR_def call_close_def
          split: if_splits option.splits)
qed

text \<open>
  Claim C4, as amended: from an absolute cwd string (or with an absolute path, which
  first resets the cwd string to "/"), \<open>update_cwd_path\<close> is the segment-by-segment
  normalisation: empty and "." segments are skipped, ".." removes the last segment
  and leaves "/" unchanged, any other segment is appended with one "/" (none at the
  root), and the first segment with \<open>strlen(cwd) + seglen + 2 \<ge> PATH_MAX\<close> sets the
  cwd string to "(unknown)" and ends the update. Every result that would exceed
  \<open>PATH_MAX\<close> meets that test. From cwd "/", a successful
  \<open>chdir("/a/b/../c//d")\<close> makes \<open>getcwd\<close> return "/a/c/d".
\<close>

theorem cwd_update_segment_by_segment:
  "(absolute cwd \<or> absolute path \<longrightarrow>
      update_cwd_path cwd path = normalise_by does_not_fit cwd path)
   \<and> (exceeds_path_max cwd seg \<longrightarrow> does_not_fit cwd seg)
   \<and> (mxio_cwd_path st = ''/'' \<and> chdir E (Some ''/a/b/../c//d'') st = Returns (0, st') \<longrightarrow>
        getcwd None 0 st' = (Some ''/a/c/d'', st'))"
proof (intro conjI impI)
  assume "absolute cwd \<or> absolute path"
  then show "update_cwd_path cwd path = normalise_by does_not_fit cwd path"
    by (rule update_cwd_path_by_segments)
next
  assume "exceeds_path_max cwd seg"
  then show "does_not_fit cwd seg" by (rule exceeds_imp_does_not_fit)
next
  assume a: "mxio_cwd_path st = ''/'' \<and> chdir E (Some ''/a/b/../c//d'') st = Returns (0, st')"
  have ex: "update_cwd_path ''/'' ''/a/b/../c//d'' = ''/a/c/d''"
    by (simp add: update_cwd_path_def cwd_loop.simps path_seg_def path_next_def
          strrchr_slash_def PATH_MAX_def)
  from a chdir_cwd_path[of E "''/a/b/../c//d''" st 0 st'] ex
  have "mxio_cwd_path st' = ''/a/c/d''" by simp
  then show "getcwd None 0 st' = (Some ''/a/c/d'', st')"
    by (simp add: getcwd_def PATH_MAX_def)
qed

lemma chdir_demo:
  "\<exists>st'. chdir demo_env (Some ''/a/b/../c//d'') demo_state = Returns (0, st')"
  by (simp add: chdir_def mxio_open_def mxio_open_at_def mxio_iodir_def call_open_def
        outside_def demo_env_def demo_state_def negative_def Let_def call_close_def
        O_DIRECTORY_def mxio_release_def mxio_acquire_def)

lemma normalise_single_segment:
  assumes "plain_segment seg" and "CHR ''/'' \<notin> set seg"
  shows "normalise_by f c seg =
           (if f c seg then unknown_path else append_segment c seg)"
proof -
  from assms obtain x xs where seg: "seg = x # xs" and x: "x \<noteq> CHR ''/''"
    by (cases seg) (auto simp: plain_segment_def)
  have "normalise_by f c seg = run_segments (segment_step f) c (split_slash seg)"
    unfolding seg using x by (simp add: normalise_by_def)
  also have "\<dots> = run_segments (segment_step f) c [seg]"
    by (simp only: split_slash_noslash[OF assms(2)])
  also have "\<dots> = (if f c seg then unknown_path else append_segment c seg)"
    using assms(1) by (simp add: segment_step_def plain_segment_def)
  finally show ?thesis .
qed

lemma long_segment_plain: "2 < n \<Longrightarrow> plain_segment (replicate n c)"
  by (auto simp: plain_segment_def dest: arg_cong[where f = length])

theorem cwd_update_segment_by_segment_witness:
  "(absolute ''/x'' \<or> absolute ''../y/./z'')
   \<and> update_cwd_path ''/x'' ''../y/./z'' = ''/y/z''
   \<and> exceeds_path_max ''/'' (replicate 4096 CHR ''a'')
   \<and> does_not_fit ''/'' (replicate 4096 CHR ''a'')
   \<and> mxio_cwd_path demo_state = ''/''
   \<and> (\<exists>st'. chdir demo_env (Some ''/a/b/../c//d'') demo_state = Returns (0, st')
          \<and> getcwd None 0 st' = (Some ''/a/c/d'', st'))"
proof -
  have a: "absolute ''/x'' \<or> absolute ''../y/./z''" by (simp add: absolute_def)
  have e: "exceeds_path_max ''/'' (replicate 4096 CHR ''a'')"
    by (simp add: exceeds_path_max_def append_segment_def PATH_MAX_def)
  have v: "normalise_by does_not_fit ''/x'' ''../y/./z'' = ''/y/z''"
    by (simp add: normalise_by_def segment_step_def does_not_fit_def parent_dir_def
          append_segment_def PATH_MAX_def)
  have p: "mxio_cwd_path demo_state = ''/''" by (simp add: demo_state_def)
  from chdir_demo obtain st' where
    c: "chdir demo_env (Some ''/a/b/../c//d'') demo_state = Returns (0, st')" by blast
  note t1 = cwd_update_segment_by_segment
    [of "''/x''" "''../y/./z''" "replicate 4096 CHR ''a''" demo_state demo_env st']
  note t2 = cwd_update_segment_by_segment
    [of "''/''" "''/''" "replicate 4096 CHR ''a''" demo_state demo_env st']
  show ?thesis using t1 t2 a e v p c by auto
qed

text \<open>
  The claim as stated sends the cwd to "(unknown)" when the result would exceed
  \<open>PATH_MAX\<close> and appends the segment otherwise. At cwd "/" and a segment of 4093
  characters the result "/aaa..." has 4094 characters, 4095 bytes with its terminator,
  and fits; the code's test \<open>1 + 4093 + 2 \<ge> 4096\<close> still stores the sentinel.
\<close>

theorem cwd_overflow_counterexample:
  "update_cwd_path ''/'' (replicate 4093 CHR ''a'')
     \<noteq> normalise_by exceeds_path_max ''/'' (replicate 4093 CHR ''a'')"
proof -
  let ?seg = "replicate 4093 CHR ''a''"
  have nos: "CHR ''/'' \<notin> set ?seg" by simp
  have pl: "plain_segment ?seg" by (rule long_segment_plain) simp
  have code: "update_cwd_path ''/'' ?seg = unknown_path"
    by (simp add: update_cwd_path_by_segments absolute_root
          normalise_single_segment[OF pl nos] does_not_fit_def PATH_MAX_def)
  have spec: "normalise_by exceeds_path_max ''/'' ?seg = ''/'' @ ?seg"
    by (simp add: normalise_single_segment[OF pl nos] exceeds_path_max_def PATH_MAX_def
          append_segment_def)
  show ?thesis unfolding code spec by (simp add: unknown_path_def)
qed

subsection \<open>Idempotence on the cwd strings\<close>

lemma run_segments_opt:
  "run_segments step c segs = (case run_opt step c segs of None \<Rightarrow> unknown_path | Some r \<Rightarrow> r)"
  by (induction segs arbitrary: c) (auto split: option.splits)

lemma run_opt_append:
  "run_opt step c (xs @ ys) =
     (case run_opt step c xs of None \<Rightarrow> None | Some c' \<Rightarrow> run_opt step c' ys)"
  by (induction xs arbitrary: c) (auto split: option.splits)

lemma split_slash_append:
  "split_slash (a @ CHR ''/'' # b) = split_slash a @ split_slash b"
proof (induction a)
  case Nil
  show ?case by simp
next
  case (Cons c a)
  obtain s ss where sp: "split_slash a = s # ss"
    using split_slash_ne[of a] by (cases "split_slash a") auto
  show ?case using Cons by (simp add: sp)
qed

lemma split_slash_segments: "seg \<in> set (split_slash p) \<Longrightarrow> CHR ''/'' \<notin> set seg"
proof (induction p arbitrary: seg)
  case Nil
  then show ?case by simp
next
  case (Cons c p)
  obtain s ss where sp: "split_slash p = s # ss"
    using split_slash_ne[of p] by (cases "split_slash p") auto
  show ?case
  proof (cases "c = CHR ''/''")
    case True
    with Cons.prems have "seg = [] \<or> seg \<in> set (split_slash p)" by simp
    then show ?thesis using Cons.IH by auto
  next
    case False
    with Cons.prems sp have "seg = c # s \<or> seg \<in> set ss" by simp
    moreover have "CHR ''/'' \<notin> set s" using Cons.IH[of s] sp by simp
    moreover have "seg \<in> set ss \<Longrightarrow> CHR ''/'' \<notin> set seg" using Cons.IH[of seg] sp by simp
    ultimately show ?thesis using False by auto
  qed
qed

lemma built_absolute: "built c \<Longrightarrow> absolute c"
  by (induction rule: built.induct) (simp_all add: absolute_root absolute_append)

lemma parent_append:
  assumes "absolute c" and "seg \<noteq> []" and "CHR ''/'' \<notin> set seg"
  shows "parent_dir (append_segment c seg) = c"
proof -
  have dw: "\<And>r. dropWhile (\<lambda>c. c \<noteq> CHR ''/'') (rev seg @ CHR ''/'' # r) = CHR ''/'' # r"
    using assms(3) by (subst dropWhile_append2) auto
  from assms(1) have ne: "c \<noteq> []" by (auto simp: absolute_def)
  show ?thesis
  proof (cases "c = ''/''")
    case True
    then show ?thesis using assms(2) dw[of "[]"]
      by (cases seg) (simp_all add: append_segment_def parent_dir_def Let_def)
  next
    case False
    have x: "append_segment c seg = c @ CHR ''/'' # seg" using False by (simp add: append_segment_def)
    have n1: "c @ CHR ''/'' # seg \<noteq> ''/''" using ne by (cases c) auto
    show ?thesis unfolding x using n1 ne dw[of "rev c"]
      by (simp add: parent_dir_def Let_def)
  qed
qed

lemma built_parent:
  assumes "built c"
  shows "built (parent_dir c)"
  using assms
proof (cases rule: built.cases)
  case built_root
  have "parent_dir ''/'' = ''/''" by (simp add: parent_dir_def)
  then show ?thesis using assms by (simp add: built_root)
next
  case (built_append c0 seg)
  then show ?thesis
    using parent_append[of c0 seg] built_absolute[of c0] by (simp add: plain_segment_def)
qed

lemma built_step:
  "built c \<Longrightarrow> CHR ''/'' \<notin> set seg \<Longrightarrow> segment_step does_not_fit c seg = Some c' \<Longrightarrow> built c'"
  by (auto simp: segment_step_def built_parent plain_segment_def intro: built_append
        split: if_splits)

lemma built_run:
  "built c \<Longrightarrow> \<forall>seg\<in>set segs. CHR ''/'' \<notin> set seg \<Longrightarrow>
   run_opt (segment_step does_not_fit) c segs = Some c' \<Longrightarrow> built c'"
proof (induction segs arbitrary: c)
  case Nil
  then show ?case by simp
next
  case (Cons s segs)
  from Cons.prems(3) obtain c1 where s1: "segment_step does_not_fit c s = Some c1"
    and r: "run_opt (segment_step does_not_fit) c1 segs = Some c'"
    by (auto split: option.splits)
  have "built c1" using built_step[OF Cons.prems(1) _ s1] Cons.prems(2) by simp
  from Cons.IH[OF this _ r] Cons.prems(2) show ?case by simp
qed

lemma relative_unknown: "relative_cwd unknown_path"
  by (simp add: relative_cwd_def unknown_path_def)

lemma relative_loop: "relative_cwd c \<Longrightarrow> relative_cwd (cwd_loop c p)"
proof (induction c p rule: cwd_loop.induct)
  case (1 cwd path)
  have t1: "relative_cwd (take 1 cwd)" using "1.prems" by (cases cwd) (auto simp: relative_cwd_def)
  have tx: "\<And>x. x \<noteq> 0 \<Longrightarrow> relative_cwd (take x cwd)"
    using "1.prems" by (cases cwd) (auto simp: relative_cwd_def take_Cons split: nat.splits)
  have a1: "relative_cwd ((cwd @ ''/'') @ path_seg path)"
    using "1.prems" by (cases cwd) (auto simp: relative_cwd_def)
  have a2: "relative_cwd (cwd @ path_seg path)"
    using "1.prems" by (cases cwd) (auto simp: relative_cwd_def)
  show ?case
    using "1.prems" "1.IH" t1 tx a1 a2
    by (subst cwd_loop.simps) (auto simp: relative_unknown split: option.splits)
qed

lemma built_or_unknown:
  assumes "built c"
  shows "cwd_inv (cwd_loop c p)"
proof -
  have e: "cwd_loop c p = run_segments (segment_step does_not_fit) c (split_slash p)"
    by (rule cwd_loop_segments[OF built_absolute[OF assms]])
  show ?thesis
  proof (cases "run_opt (segment_step does_not_fit) c (split_slash p)")
    case None
    then show ?thesis by (simp add: e run_segments_opt cwd_inv_def relative_unknown)
  next
    case (Some c')
    have "built c'" using built_run[OF assms _ Some] split_slash_segments by blast
    then show ?thesis by (simp add: e run_segments_opt Some cwd_inv_def)
  qed
qed

lemma cwd_inv_update: "cwd_inv c \<Longrightarrow> cwd_inv (update_cwd_path c p)"
  using built_or_unknown[OF built_root] built_or_unknown[of c p] relative_loop[of c p]
  by (auto simp: update_cwd_path_def cwd_inv_def)

lemma cwd_inv_foldl: "cwd_inv c \<Longrightarrow> cwd_inv (foldl update_cwd_path c ps)"
  by (induction ps arbitrary: c) (simp_all add: cwd_inv_update)

lemma cwd_after_inv: "cwd_inv (cwd_after ps)"
  unfolding cwd_after_def by (rule cwd_inv_foldl) (simp add: cwd_inv_def built_root)

lemma built_rerun:
  "built c \<Longrightarrow> run_opt (segment_step does_not_fit) ''/'' (split_slash (tl c)) = Some c"
proof (induction rule: built.induct)
  case built_root
  show ?case by (simp add: segment_step_def)
next
  case (built_append c seg)
  have st: "segment_step does_not_fit c seg = Some (append_segment c seg)"
    using built_append.hyps by (simp add: segment_step_def plain_segment_def)
  have sp: "split_slash seg = [seg]" using built_append.hyps by (simp add: split_slash_noslash)
  show ?case
  proof (cases "c = ''/''")
    case True
    then show ?thesis using st sp by (simp add: append_segment_def)
  next
    case False
    from built_absolute[OF built_append.hyps(1)] have ne: "c \<noteq> []" by (auto simp: absolute_def)
    have "tl (append_segment c seg) = tl c @ CHR ''/'' # seg"
      using False ne by (simp add: append_segment_def)
    then show ?thesis
      using built_append.IH st sp by (simp add: split_slash_append run_opt_append)
  qed
qed

lemma built_length: "built c \<Longrightarrow> length c + 1 < PATH_MAX"
  by (induction rule: built.induct)
     (auto simp: PATH_MAX_def does_not_fit_def append_segment_def)

lemma built_idempotent: "built s \<Longrightarrow> update_cwd_path cwd s = s"
proof -
  assume b: "built s"
  from built_absolute[OF b] have "s \<noteq> [] \<and> hd s = CHR ''/''"
    by (auto simp: absolute_def split: list.splits)
  then have "update_cwd_path cwd s = cwd_loop ''/'' (tl s)" by (simp add: update_cwd_path_def)
  also have "\<dots> = run_segments (segment_step does_not_fit) ''/'' (split_slash (tl s))"
    by (rule cwd_loop_segments[OF absolute_root])
  also have "\<dots> = s" by (simp add: run_segments_opt built_rerun[OF b])
  finally show ?thesis .
qed

lemma reachable_absolute_built: "absolute (cwd_after ps) \<Longrightarrow> built (cwd_after ps)"
  using cwd_after_inv[of ps]
  by (auto simp: cwd_inv_def relative_cwd_def absolute_def split: list.splits)

text \<open>
  Claim C8: path normalisation is idempotent. For every cwd string s (a value
  \<open>cwd_after paths\<close> of the cwd string) that is in normalised form (absolute, containing
  no "//" or "/./" and no trailing slash except the root "/"), running
  \<open>update_cwd_path(s)\<close> leaves the cwd string equal to s; consequently
  \<open>chdir(getcwd())\<close> does not change the cwd string.
\<close>

theorem reachable_cwd_idempotent:
  assumes "claimed_normal_form (cwd_after ps)"
  shows "update_cwd_path (cwd_after ps) (cwd_after ps) = cwd_after ps
       \<and> (mxio_cwd_path st = cwd_after ps
            \<and> chdir E (fst (getcwd None 0 st)) st = Returns (r, st')
            \<longrightarrow> mxio_cwd_path st' = cwd_after ps)"
proof -
  let ?s = "cwd_after ps"
  from assms have "absolute ?s" by (simp add: claimed_normal_form_def)
  then have b: "built ?s" by (rule reachable_absolute_built)
  have u: "update_cwd_path ?s ?s = ?s" by (rule built_idempotent[OF b])
  have "mxio_cwd_path st' = ?s"
    if p: "mxio_cwd_path st = ?s" and c: "chdir E (fst (getcwd None 0 st)) st = Returns (r, st')"
  proof -
    have "getcwd None 0 st = (Some ?s, st)"
      using built_length[OF b] p by (simp add: getcwd_def)
    with c have "chdir E (Some ?s) st = Returns (r, st')" by simp
    from chdir_cwd_path[OF this] show ?thesis by (simp add: p u)
  qed
  with u show ?thesis by blast
qed


theorem reachable_cwd_idempotent_witness:
  "claimed_normal_form (cwd_after [''/a/b'', ''../c''])
   \<and> cwd_after [''/a/b'', ''../c''] = ''/a/c''
   \<and> update_cwd_path (cwd_after [''/a/b'', ''../c'']) (cwd_after [''/a/b'', ''../c'']) = ''/a/c''
   \<and> (\<exists>st'. chdir demo_env
                 (fst (getcwd None 0 (demo_state\<lparr>mxio_cwd_path := cwd_after [''/a/b'', ''../c'']\<rparr>)))
                 (demo_state\<lparr>mxio_cwd_path := cwd_after [''/a/b'', ''../c'']\<rparr>) = Returns (0, st')
            \<and> mxio_cwd_path st' = ''/a/c'')"
proof -
  let ?s = "cwd_after [''/a/b'', ''../c'']"
  let ?st = "demo_state\<lparr>mxio_cwd_path := ?s\<rparr>"
  have ca: "?s = ''/a/c''"
    by (simp add: cwd_after_def update_cwd_path_def cwd_loop.simps path_seg_def path_next_def
          strrchr_slash_def PATH_MAX_def)
  have h: "claimed_normal_form ?s"
    unfolding ca by (simp add: claimed_normal_form_def absolute_def)
  have "\<exists>st'. chdir demo_env (fst (getcwd None 0 ?st)) ?st = Returns (0, st')"
    unfolding ca
    by (simp add: chdir_def mxio_open_def mxio_open_at_def mxio_iodir_def call_open_def
        outside_def demo_env_def demo_state_def negative_def Let_def call_close_def
        O_DIRECTORY_def mxio_release_def mxio_acquire_def getcwd_def PATH_MAX_def)
  then obtain st' where c: "chdir demo_env (fst (getcwd None 0 ?st)) ?st = Returns (0, st')"
    by blast
  have p: "mxio_cwd_path ?st = ?s" by simp
  from reachable_cwd_idempotent[OF h, of ?st demo_env 0 st'] c p
  have "update_cwd_path ?s ?s = ?s \<and> mxio_cwd_path st' = ?s" by blast
  then show ?thesis using h c ca by auto
qed

text \<open>
  The longest cwd strings are covered: "/ok/" followed by 4090 letters is a cwd
  string of \<open>PATH_MAX - 2\<close> characters, and it is left as it is.
\<close>

lemma long_cwd_reachable:
  "cwd_after [''/ok'', replicate 4090 CHR ''a''] = ''/ok/'' @ replicate 4090 CHR ''a''
   \<and> length (cwd_after [''/ok'', replicate 4090 CHR ''a'']) + 2 = PATH_MAX
   \<and> update_cwd_path (''/ok/'' @ replicate 4090 CHR ''a'') (''/ok/'' @ replicate 4090 CHR ''a'')
       = ''/ok/'' @ replicate 4090 CHR ''a''"
proof -
  let ?seg = "replicate 4090 CHR ''a''"
  have ok: "append_segment ''/'' ''ok'' = ''/ok''" by (simp add: append_segment_def)
  have b1: "built ''/ok''"
    using built_append[OF built_root, of "''ok''"]
    by (simp add: ok plain_segment_def does_not_fit_def PATH_MAX_def)
  have ns: "CHR ''/'' \<notin> set ?seg" by simp
  have pl: "plain_segment ?seg" by (rule long_segment_plain) simp
  have fit: "\<not> does_not_fit ''/ok'' ?seg" by (simp add: does_not_fit_def PATH_MAX_def)
  have ap: "append_segment ''/ok'' ?seg = ''/ok/'' @ ?seg" by (simp add: append_segment_def)
  have b2: "built (''/ok/'' @ ?seg)"
    using built_append[OF b1 pl ns fit] by (simp only: ap)
  have u1: "update_cwd_path ''/'' ''/ok'' = ''/ok''" by (rule built_idempotent[OF b1])
  have "update_cwd_path ''/ok'' ?seg = normalise_by does_not_fit ''/ok'' ?seg"
    by (rule update_cwd_path_by_segments) (simp add: absolute_def)
  also have "\<dots> = ''/ok/'' @ ?seg"
    using fit by (simp only: normalise_single_segment[OF pl ns] ap if_False)
  finally have u2: "update_cwd_path ''/ok'' ?seg = ''/ok/'' @ ?seg" .
  have ca: "cwd_after [''/ok'', ?seg] = ''/ok/'' @ ?seg"
    by (simp only: cwd_after_def foldl.simps u1 u2)
  show ?thesis
    unfolding ca using built_idempotent[OF b2] by (simp add: PATH_MAX_def)
qed

section \<open>open and openat with O_CREAT and O_DIRECTORY\<close>

text \<open>
  Claim C6: for every path, mode and dirfd, \<open>open\<close> and \<open>openat\<close> with flags
  containing both \<open>O_CREAT\<close> and \<open>O_DIRECTORY\<close> return -1 with errno \<open>EINVAL\<close>
  before any transport open: the state afterwards is the state before with only
  \<open>errno\<close> set, so the fd table, the cwd, every io object and the log of outside
  calls are unchanged.
\<close>

theorem open_creat_directory_rejected:
  assumes "fl AND O_CREAT \<noteq> 0" and "fl AND O_DIRECTORY \<noteq> 0"
  shows "open E path fl mode st = Returns (-1, st\<lparr>errno := Some EINVAL\<rparr>)
       \<and> openat E dirfd path fl mode st = Returns (-1, st\<lparr>errno := Some EINVAL\<rparr>)"
  using assms by (simp add: open_def openat_def vopenat_def ERRNO_def)

theorem open_creat_directory_rejected_witness:
  "(O_CREAT OR O_DIRECTORY) AND O_CREAT \<noteq> 0
   \<and> (O_CREAT OR O_DIRECTORY) AND O_DIRECTORY \<noteq> 0
   \<and> open demo_env (Some ''/tmp/x'') (O_CREAT OR O_DIRECTORY) 0x1FF demo_state
        = Returns (-1, demo_state\<lparr>errno := Some EINVAL\<rparr>)
   \<and> openat demo_env 3 (Some ''x'') (O_CREAT OR O_DIRECTORY) 0x1FF demo_state
        = Returns (-1, demo_state\<lparr>errno := Some EINVAL\<rparr>)"
proof -
  have h1: "(O_CREAT OR O_DIRECTORY) AND O_CREAT \<noteq> 0" by (simp add: O_CREAT_def O_DIRECTORY_def)
  have h2: "(O_CREAT OR O_DIRECTORY) AND O_DIRECTORY \<noteq> 0" by (simp add: O_CREAT_def O_DIRECTORY_def)
  from open_creat_directory_rejected[OF h1 h2, of demo_env "Some ''/tmp/x''" "0x1FF" demo_state 3]
       open_creat_directory_rejected[OF h1 h2, of demo_env "Some ''x''" "0x1FF" demo_state 3]
       h1 h2
  show ?thesis by simp
qed

section \<open>Waiting on one fd and the blocking transfers (unistd.c, lines 510-539 and 656-780)\<close>

definition call_wait_begin ::
  "'w env \<Rightarrow> ioref \<Rightarrow> 32 word \<Rightarrow> 'w mxio_state \<Rightarrow> (mx_handle \<times> mx_signals) \<times> 'w mxio_state" where
  "call_wait_begin E io events st =
     outside (ops_wait_begin E io events) (\<lambda>(h, sigs). Call_wait_begin io events h sigs) st"

definition call_wait_end ::
  "'w env \<Rightarrow> ioref \<Rightarrow> mx_signals \<Rightarrow> 'w mxio_state \<Rightarrow> 32 word \<times> 'w mxio_state" where
  "call_wait_end E io pending st =
     outside (ops_wait_end E io pending) (\<lambda>ev. Call_wait_end io pending ev) st"

definition call_wait_one ::
  "'w env \<Rightarrow> mx_handle \<Rightarrow> mx_signals \<Rightarrow> mx_time \<Rightarrow> 'w mxio_state
   \<Rightarrow> (mx_status \<times> mx_signals) \<times> 'w mxio_state" where
  "call_wait_one E h sigs timeout st =
     outside (mx_object_wait_one E h sigs timeout) (\<lambda>r. Call_wait_one h sigs timeout) st"

text \<open>
  \<open>mxio_wait_fd\<close>; the second component of the result is the value of \<open>events\<close> at
  the end, which the function stores through \<open>_pending\<close> when that is not NULL.
\<close>

definition mxio_wait_fd ::
  "'w env \<Rightarrow> int \<Rightarrow> 32 word \<Rightarrow> mx_time \<Rightarrow> 'w mxio_state
   \<Rightarrow> mx_status \<times> 32 word \<times> 'w mxio_state" where
  "mxio_wait_fd E fd events timeout st =
     (case fd_to_io fd st of
        (None, st1) \<Rightarrow> (ERR_BAD_HANDLE, events, st1)
      | (Some io, st1) \<Rightarrow>
          (case call_wait_begin E io events st1 of
             ((h, signals), st2) \<Rightarrow>
               if h = MX_HANDLE_INVALID then (ERR_INVALID_ARGS, events, mxio_release io st2)
               else
                 (case call_wait_one E h signals timeout st2 of
                    ((r, pending), st3) \<Rightarrow>
                      if negative r \<and> r \<noteq> ERR_TIMED_OUT then (r, events, mxio_release io st3)
                      else
                        (case call_wait_end E io pending st3 of
                           (ev, st4) \<Rightarrow> (r, ev, mxio_release io st4)))))"

text \<open>
  The loop shared by \<open>read\<close>, \<open>write\<close>, \<open>pread\<close> and \<open>pwrite\<close>:
  \<open>for (;;) { status = op; if (status != ERR_SHOULD_WAIT || nonblock) break; wait; }\<close>.
  It may run forever, so it is a partial function: \<open>None\<close> is "does not return".
\<close>

partial_function (option) retry_loop ::
  "('s \<Rightarrow> mx_status \<times> 's) \<Rightarrow> ('s \<Rightarrow> bool) \<Rightarrow> ('s \<Rightarrow> 's) \<Rightarrow> 's \<Rightarrow> (mx_status \<times> 's) option" where
  "retry_loop op nonblock wait st =
     (case op st of
        (status, st1) \<Rightarrow>
          if status \<noteq> ERR_SHOULD_WAIT \<or> nonblock st1 then Some (status, st1)
          else retry_loop op nonblock wait (wait st1))"

definition nonblocking :: "ioref \<Rightarrow> 'w mxio_state \<Rightarrow> bool" where
  "nonblocking io st = (flags (objs st io) AND MXIO_FLAG_NONBLOCK \<noteq> 0)"

definition wait_forever :: "'w env \<Rightarrow> int \<Rightarrow> 32 word \<Rightarrow> 'w mxio_state \<Rightarrow> 'w mxio_state" where
  "wait_forever E fd events st = snd (snd (mxio_wait_fd E fd events MX_TIME_INFINITE st))"

definition call_read :: "'w env \<Rightarrow> ioref \<Rightarrow> nat \<Rightarrow> nat \<Rightarrow> 'w mxio_state \<Rightarrow> mx_status \<times> 'w mxio_state" where
  "call_read E io buf count st = outside (ops_read E io buf count) (\<lambda>r. Call_read io count r) st"

definition call_write :: "'w env \<Rightarrow> ioref \<Rightarrow> nat \<Rightarrow> nat \<Rightarrow> 'w mxio_state \<Rightarrow> mx_status \<times> 'w mxio_state" where
  "call_write E io buf count st = outside (ops_write E io buf count) (\<lambda>r. Call_write io count r) st"

definition call_read_at ::
  "'w env \<Rightarrow> ioref \<Rightarrow> nat \<Rightarrow> nat \<Rightarrow> int \<Rightarrow> 'w mxio_state \<Rightarrow> mx_status \<times> 'w mxio_state" where
  "call_read_at E io buf count ofs st =
     outside (ops_read_at E io buf count ofs) (\<lambda>r. Call_read_at io count ofs r) st"

definition call_write_at ::
  "'w env \<Rightarrow> ioref \<Rightarrow> nat \<Rightarrow> nat \<Rightarrow> int \<Rightarrow> 'w mxio_state \<Rightarrow> mx_status \<times> 'w mxio_state" where
  "call_write_at E io buf count ofs st =
     outside (ops_write_at E io buf count ofs) (\<lambda>r. Call_write_at io count ofs r) st"

text \<open>
  \<open>status = io->ops->read(io, buf, count)\<close>: the transport's \<open>ssize_t\<close> stored in
  the \<open>mx_status_t status\<close>, which is what the loop tests and \<open>STATUS\<close> translates.
\<close>

definition stored :: "('s \<Rightarrow> mx_status \<times> 's) \<Rightarrow> 's \<Rightarrow> mx_status \<times> 's" where
  "stored op st = (case op st of (r, st1) \<Rightarrow> (narrow_status r, st1))"

text \<open>
  A transfer after the NULL test of the buffer and the lookup of the fd: loop,
  release, and translate the status. \<open>buf\<close> is \<open>None\<close> for a NULL pointer.
\<close>

definition transfer ::
  "'w env \<Rightarrow> int \<Rightarrow> ('w mxio_state \<Rightarrow> mx_status \<times> 'w mxio_state) \<Rightarrow> 32 word \<Rightarrow> ioref
   \<Rightarrow> 'w mxio_state \<Rightarrow> (int \<times> 'w mxio_state) option" where
  "transfer E fd op events io st =
     (case retry_loop (stored op) (nonblocking io) (wait_forever E fd events) st of
        None \<Rightarrow> None
      | Some (status, st1) \<Rightarrow> Some (STATUS status (mxio_release io st1)))"

definition read ::
  "'w env \<Rightarrow> int \<Rightarrow> nat option \<Rightarrow> nat \<Rightarrow> 'w mxio_state \<Rightarrow> (int \<times> 'w mxio_state) option" where
  "read E fd buf count st =
     (case buf of
        None \<Rightarrow> Some (ERRNO EINVAL st)
      | Some b \<Rightarrow>
          (case fd_to_io fd st of
             (None, st1) \<Rightarrow> Some (ERRNO EBADF st1)
           | (Some io, st1) \<Rightarrow> transfer E fd (call_read E io b count) MXIO_EVT_READABLE io st1))"

definition "write" ::
  "'w env \<Rightarrow> int \<Rightarrow> nat option \<Rightarrow> nat \<Rightarrow> 'w mxio_state \<Rightarrow> (int \<times> 'w mxio_state) option" where
  "write E fd buf count st =
     (case buf of
        None \<Rightarrow> Some (ERRNO EINVAL st)
      | Some b \<Rightarrow>
          (case fd_to_io fd st of
             (None, st1) \<Rightarrow> Some (ERRNO EBADF st1)
           | (Some io, st1) \<Rightarrow> transfer E fd (call_write E io b count) MXIO_EVT_WRITABLE io st1))"

definition pread ::
  "'w env \<Rightarrow> int \<Rightarrow> nat option \<Rightarrow> nat \<Rightarrow> int \<Rightarrow> 'w mxio_state \<Rightarrow> (int \<times> 'w mxio_state) option" where
  "pread E fd buf sz ofs st =
     (case buf of
        None \<Rightarrow> Some (ERRNO EINVAL st)
      | Some b \<Rightarrow>
          (case fd_to_io fd st of
             (None, st1) \<Rightarrow> Some (ERRNO EBADF st1)
           | (Some io, st1) \<Rightarrow> transfer E fd (call_read_at E io b sz ofs) MXIO_EVT_READABLE io st1))"

definition pwrite ::
  "'w env \<Rightarrow> int \<Rightarrow> nat option \<Rightarrow> nat \<Rightarrow> int \<Rightarrow> 'w mxio_state \<Rightarrow> (int \<times> 'w mxio_state) option" where
  "pwrite E fd buf sz ofs st =
     (case buf of
        None \<Rightarrow> Some (ERRNO EINVAL st)
      | Some b \<Rightarrow>
          (case fd_to_io fd st of
             (None, st1) \<Rightarrow> Some (ERRNO EBADF st1)
           | (Some io, st1) \<Rightarrow> transfer E fd (call_write_at E io b sz ofs) MXIO_EVT_WRITABLE io st1))"

section \<open>Properties of the blocking loop\<close>

text \<open>
  \<open>next_try\<close> is one unsuccessful round of the loop (the operation, then the wait);
  a state is \<open>blocked\<close> when the operation answers \<open>ERR_SHOULD_WAIT\<close> there and the
  object is not non-blocking.
\<close>

definition next_try :: "('s \<Rightarrow> mx_status \<times> 's) \<Rightarrow> ('s \<Rightarrow> 's) \<Rightarrow> 's \<Rightarrow> 's" where
  "next_try op wait st = wait (snd (op st))"

definition blocked :: "('s \<Rightarrow> mx_status \<times> 's) \<Rightarrow> ('s \<Rightarrow> bool) \<Rightarrow> 's \<Rightarrow> bool" where
  "blocked op nonblock st = (fst (op st) = ERR_SHOULD_WAIT \<and> \<not> nonblock (snd (op st)))"

text \<open>
  For \<open>read\<close> on a bound fd: \<open>read_try \<dots> k\<close> is the state in which the transport
  read is issued for the (k+1)-th time, \<open>read_answer \<dots> k\<close> is what the transport
  answers then, and \<open>read_status \<dots> k\<close> is the value of \<open>status\<close> after that call.
\<close>

definition read_try :: "'w env \<Rightarrow> int \<Rightarrow> ioref \<Rightarrow> nat \<Rightarrow> nat \<Rightarrow> 'w mxio_state \<Rightarrow> nat \<Rightarrow> 'w mxio_state" where
  "read_try E fd io b count st k =
     (next_try (call_read E io b count) (wait_forever E fd MXIO_EVT_READABLE) ^^ k)
       (mxio_acquire io st)"

definition read_answer :: "'w env \<Rightarrow> int \<Rightarrow> ioref \<Rightarrow> nat \<Rightarrow> nat \<Rightarrow> 'w mxio_state \<Rightarrow> nat \<Rightarrow> mx_status" where
  "read_answer E fd io b count st k = fst (call_read E io b count (read_try E fd io b count st k))"

definition read_status :: "'w env \<Rightarrow> int \<Rightarrow> ioref \<Rightarrow> nat \<Rightarrow> nat \<Rightarrow> 'w mxio_state \<Rightarrow> nat \<Rightarrow> mx_status" where
  "read_status E fd io b count st k = narrow_status (read_answer E fd io b count st k)"

definition is_wait_one :: "call \<Rightarrow> bool" where
  "is_wait_one c = (case c of Call_wait_one h sigs t \<Rightarrow> True | _ \<Rightarrow> False)"

text \<open>The demo environment with a transport that is never ready to read.\<close>

definition stuck_env :: "nat env" where
  "stuck_env = demo_env\<lparr>ops_read := (\<lambda>io buf n w. (ERR_SHOULD_WAIT, w))\<rparr>"

lemma narrow_status_error:
  "negative r \<Longrightarrow> narrow_status r = r"
  by (cases r) (simp_all add: narrow_status_def negative_def)

lemma narrow_status_small: "n < 2 ^ 31 \<Longrightarrow> narrow_status (Val n) = Val n"
  by (simp add: narrow_status_def)

lemma narrow_should_wait: "narrow_status ERR_SHOULD_WAIT = ERR_SHOULD_WAIT"
  by (simp add: narrow_status_def)

lemma stored_fst: "fst (stored op st) = narrow_status (fst (op st))"
  by (simp add: stored_def split: prod.splits)

lemma stored_snd: "snd (stored op st) = snd (op st)"
  by (simp add: stored_def split: prod.splits)

lemma next_try_stored: "next_try (stored op) wait = next_try op wait"
  by (rule ext) (simp add: next_try_def stored_snd)

lemma retry_loop_done:
  "\<not> blocked op nonblock st \<Longrightarrow> retry_loop op nonblock wait st = Some (op st)"
  by (subst retry_loop.simps) (auto simp: blocked_def split: prod.splits)

lemma retry_loop_again:
  "blocked op nonblock st \<Longrightarrow>
   retry_loop op nonblock wait st = retry_loop op nonblock wait (next_try op wait st)"
  by (subst retry_loop.simps) (auto simp: blocked_def next_try_def split: prod.splits)

lemma retry_loop_skip:
  "(\<forall>j<k. blocked op nonblock ((next_try op wait ^^ j) st)) \<Longrightarrow>
   retry_loop op nonblock wait st = retry_loop op nonblock wait ((next_try op wait ^^ k) st)"
proof (induction k)
  case 0
  show ?case by simp
next
  case (Suc k)
  then have "retry_loop op nonblock wait st
               = retry_loop op nonblock wait ((next_try op wait ^^ k) st)" by simp
  also have "\<dots> = retry_loop op nonblock wait (next_try op wait ((next_try op wait ^^ k) st))"
    using Suc.prems by (intro retry_loop_again) simp
  finally show ?case by simp
qed

lemma retry_loop_returns:
  assumes "retry_loop op nonblock wait st = Some y"
  shows "\<exists>k. \<not> blocked op nonblock ((next_try op wait ^^ k) st)"
proof (rule retry_loop.raw_induct
    [where P = "\<lambda>op nonblock wait st y. \<exists>k. \<not> blocked op nonblock ((next_try op wait ^^ k) st)",
     OF _ assms])
  fix f :: "('a \<Rightarrow> mx_status \<times> 'a) \<Rightarrow> ('a \<Rightarrow> bool) \<Rightarrow> ('a \<Rightarrow> 'a) \<Rightarrow> 'a \<Rightarrow> (mx_status \<times> 'a) option"
    and op nonblock wait st r
  assume ih: "\<And>nonblock wait st b y. f nonblock wait st b = Some y \<Longrightarrow>
                 \<exists>k. \<not> blocked nonblock wait ((next_try nonblock st ^^ k) b)"
    and body: "(case op st of
                  (status, st1) \<Rightarrow>
                    if status \<noteq> ERR_SHOULD_WAIT \<or> nonblock st1 then Some (status, st1)
                    else f op nonblock wait (wait st1)) = Some r"
  show "\<exists>k. \<not> blocked op nonblock ((next_try op wait ^^ k) st)"
  proof (cases "blocked op nonblock st")
    case False
    then have "\<not> blocked op nonblock ((next_try op wait ^^ 0) st)" by simp
    then show ?thesis by blast
  next
    case True
    with body have "f op nonblock wait (next_try op wait st) = Some r"
      by (auto simp: blocked_def next_try_def split: prod.splits)
    from ih[OF this] obtain k where
      "\<not> blocked op nonblock ((next_try op wait ^^ k) (next_try op wait st))" by blast
    then have "\<not> blocked op nonblock ((next_try op wait ^^ Suc k) st)"
      by (simp add: funpow_swap1)
    then show ?thesis by blast
  qed
qed

lemma retry_loop_diverges:
  "(\<forall>k. blocked op nonblock ((next_try op wait ^^ k) st)) \<Longrightarrow>
   retry_loop op nonblock wait st = None"
  using retry_loop_returns[of op nonblock wait st] by (cases "retry_loop op nonblock wait st") auto

lemma retry_loop_first_answer:
  assumes "\<forall>j<k. blocked op nonblock ((next_try op wait ^^ j) st)"
    and "\<not> blocked op nonblock ((next_try op wait ^^ k) st)"
  shows "retry_loop op nonblock wait st = Some (op ((next_try op wait ^^ k) st))"
  using retry_loop_skip[OF assms(1)] retry_loop_done[OF assms(2)] by simp

lemma outside_keeps [simp]:
  "objs (snd (outside f c st)) = objs st"
  "mxio_fdtab (snd (outside f c st)) = mxio_fdtab st"
  "errno (snd (outside f c st)) = errno st"
  by (simp_all add: outside_def split: prod.splits)

lemma outside_fst: "fst (outside f c st) = fst (f (world st))"
  by (simp add: outside_def split: prod.splits)

lemma outside_calls: "calls (snd (outside f c st)) = calls st @ [c (fst (f (world st)))]"
  by (simp add: outside_def split: prod.splits)

lemma release_keeps [simp]:
  "flags (objs (mxio_release io st) p) = flags (objs st p)"
  "mxio_fdtab (mxio_release io st) = mxio_fdtab st"
  "errno (mxio_release io st) = errno st"
  by (simp_all add: mxio_release_def Let_def)

lemma acquire_keeps [simp]:
  "flags (objs (mxio_acquire io st) p) = flags (objs st p)"
  "mxio_fdtab (mxio_acquire io st) = mxio_fdtab st"
  "errno (mxio_acquire io st) = errno st"
  "calls (mxio_acquire io st) = calls st"
  by (simp_all add: mxio_acquire_def)

lemma release_calls: "\<exists>tail. calls (mxio_release io st) = calls st @ tail"
  by (simp add: mxio_release_def Let_def)

lemma release_calls_free:
  "\<exists>tail. calls (mxio_release io st) = calls st @ tail \<and> \<not> list_ex is_wait_one tail"
  by (simp add: mxio_release_def Let_def is_wait_one_def)

lemma fd_to_io_bound:
  "0 \<le> fd \<Longrightarrow> fd < MAX_MXIO_FD \<Longrightarrow> mxio_fdtab st fd = Some io \<Longrightarrow>
   fd_to_io fd st = (Some io, mxio_acquire io st)"
  by (simp add: fd_to_io_def)

lemma wait_fd_keeps:
  "flags (objs (snd (snd (mxio_wait_fd E fd ev t st))) p) = flags (objs st p)
   \<and> mxio_fdtab (snd (snd (mxio_wait_fd E fd ev t st))) = mxio_fdtab st"
  by (auto simp: mxio_wait_fd_def fd_to_io_def call_wait_begin_def call_wait_one_def
        call_wait_end_def outside_def split: option.splits prod.splits)

lemma wait_forever_calls:
  assumes "0 \<le> fd" and "fd < MAX_MXIO_FD" and "mxio_fdtab st fd = Some io"
  shows "\<exists>h sigs rest. calls (wait_forever E fd ev st)
             = calls st @ Call_wait_begin io ev h sigs # rest
           \<and> (h \<noteq> MX_HANDLE_INVALID \<longrightarrow>
                (\<exists>rest'. rest = Call_wait_one h sigs MX_TIME_INFINITE # rest'))
           \<and> (h = MX_HANDLE_INVALID \<longrightarrow> \<not> list_ex is_wait_one rest)"
proof -
  obtain h sigs st2 where wb: "call_wait_begin E io ev (mxio_acquire io st) = ((h, sigs), st2)"
    by (metis prod.exhaust)
  then have c2: "calls st2 = calls st @ [Call_wait_begin io ev h sigs]"
    by (auto simp: call_wait_begin_def outside_def split: prod.splits)
  show ?thesis
  proof (cases "h = MX_HANDLE_INVALID")
    case True
    then have w: "wait_forever E fd ev st = mxio_release io st2"
      by (simp add: wait_forever_def mxio_wait_fd_def fd_to_io_bound[OF assms] wb)
    from release_calls_free[of io st2] obtain tail where
      "calls (mxio_release io st2) = calls st2 @ tail" "\<not> list_ex is_wait_one tail" by blast
    then show ?thesis using True by (simp add: w c2)
  next
    case False
    obtain r pending st3 where wo:
      "call_wait_one E h sigs MX_TIME_INFINITE st2 = ((r, pending), st3)"
      by (metis prod.exhaust)
    then have c3: "calls st3 = calls st2 @ [Call_wait_one h sigs MX_TIME_INFINITE]"
      by (auto simp: call_wait_one_def outside_def split: prod.splits)
    have "\<exists>tail. calls (wait_forever E fd ev st) = calls st3 @ tail"
      using release_calls
      by (auto simp: wait_forever_def mxio_wait_fd_def fd_to_io_bound[OF assms] wb wo False
            call_wait_end_def outside_def mxio_release_def Let_def split: prod.splits)
    then show ?thesis using False by (auto simp: c3 c2)
  qed
qed

lemma read_try_keeps:
  "flags (objs (read_try E fd io b count st k) p) = flags (objs st p)
   \<and> mxio_fdtab (read_try E fd io b count st k) = mxio_fdtab st"
proof (induction k)
  case 0
  show ?case by (simp add: read_try_def)
next
  case (Suc k)
  have "read_try E fd io b count st (Suc k)
          = wait_forever E fd MXIO_EVT_READABLE (snd (call_read E io b count (read_try E fd io b count st k)))"
    by (simp add: read_try_def next_try_def)
  then show ?case using Suc wait_fd_keeps[of E fd MXIO_EVT_READABLE MX_TIME_INFINITE]
    by (simp add: wait_forever_def call_read_def)
qed

lemma read_blocked_iff:
  "blocked (stored (call_read E io b count)) (nonblocking io) (read_try E fd io b count st k)
     = (read_status E fd io b count st k = ERR_SHOULD_WAIT \<and> \<not> nonblocking io st)"
  using read_try_keeps[of E fd io b count st k io]
  by (simp add: blocked_def read_status_def read_answer_def nonblocking_def call_read_def
        stored_fst stored_snd)

lemma read_bound:
  assumes "0 \<le> fd" and "fd < MAX_MXIO_FD" and "mxio_fdtab st fd = Some io"
  shows "read E fd (Some b) count st =
           (case retry_loop (stored (call_read E io b count)) (nonblocking io)
                   (wait_forever E fd MXIO_EVT_READABLE) (read_try E fd io b count st 0) of
              None \<Rightarrow> None
            | Some (status, st1) \<Rightarrow> Some (STATUS status (mxio_release io st1)))"
  by (simp add: read_def fd_to_io_bound[OF assms] transfer_def read_try_def)

lemma read_status_should_wait:
  "read_status E fd io b count st k \<noteq> ERR_SHOULD_WAIT \<Longrightarrow>
   read_answer E fd io b count st k \<noteq> ERR_SHOULD_WAIT"
  by (auto simp: read_status_def narrow_should_wait)

text \<open>
  Claim C3, as amended: for every fd bound to an io object, when the transport read
  returns \<open>ERR_SHOULD_WAIT\<close> and the io's \<open>NONBLOCK\<close> flag is set,
  \<open>read(fd, buf, count)\<close> returns -1 with errno \<open>EAGAIN\<close>. When \<open>NONBLOCK\<close> is unset,
  \<open>read\<close> retries the transport read for as long as the result, stored in the 32-bit
  \<open>status\<close>, is \<open>ERR_SHOULD_WAIT\<close>: it returns the translation of the first status
  that differs, it never returns when there is none, and when it returns the
  transport has yielded a result other than \<open>ERR_SHOULD_WAIT\<close>. Before each retry
  it calls \<open>wait_begin\<close> for \<open>MXIO_EVT_READABLE\<close>; when that yields a valid handle
  it waits on it in the kernel with \<open>MX_TIME_INFINITE\<close>, and when the handle is
  invalid it makes no kernel wait and retries at once. (The transport read is reached
  with a non-NULL buffer only.)
\<close>

theorem read_blocks_until_ready:
  assumes "0 \<le> fd" and "fd < MAX_MXIO_FD" and "mxio_fdtab st fd = Some io"
  shows "(nonblocking io st \<and> read_answer E fd io b count st 0 = ERR_SHOULD_WAIT \<longrightarrow>
            (\<exists>st'. read E fd (Some b) count st = Some (-1, st') \<and> errno st' = Some EAGAIN))
       \<and> (\<not> nonblocking io st \<longrightarrow>
            (\<forall>k. (\<forall>j<k. read_status E fd io b count st j = ERR_SHOULD_WAIT)
                   \<and> read_status E fd io b count st k \<noteq> ERR_SHOULD_WAIT \<longrightarrow>
                 read E fd (Some b) count st =
                   Some (STATUS (read_status E fd io b count st k)
                          (mxio_release io (snd (call_read E io b count (read_try E fd io b count st k))))))
          \<and> ((\<forall>k. read_status E fd io b count st k = ERR_SHOULD_WAIT) \<longrightarrow>
                 read E fd (Some b) count st = None)
          \<and> (\<forall>y. read E fd (Some b) count st = Some y \<longrightarrow>
                 (\<exists>k. (\<forall>j<k. read_status E fd io b count st j = ERR_SHOULD_WAIT)
                      \<and> read_status E fd io b count st k \<noteq> ERR_SHOULD_WAIT
                      \<and> read_answer E fd io b count st k \<noteq> ERR_SHOULD_WAIT))
          \<and> (\<forall>k. read_status E fd io b count st k = ERR_SHOULD_WAIT \<longrightarrow>
                 (\<exists>h sigs rest.
                    calls (read_try E fd io b count st (Suc k))
                      = calls (read_try E fd io b count st k)
                        @ Call_read io count (read_answer E fd io b count st k)
                        # Call_wait_begin io MXIO_EVT_READABLE h sigs # rest
                    \<and> (h \<noteq> MX_HANDLE_INVALID \<longrightarrow>
                         (\<exists>rest'. rest = Call_wait_one h sigs MX_TIME_INFINITE # rest'))
                    \<and> (h = MX_HANDLE_INVALID \<longrightarrow> \<not> list_ex is_wait_one rest))))"
proof (intro conjI impI allI)
  let ?op = "call_read E io b count"
  let ?w = "wait_forever E fd MXIO_EVT_READABLE"
  let ?att = "read_try E fd io b count st"
  let ?ans = "read_answer E fd io b count st"
  let ?sta = "read_status E fd io b count st"
  note rb = read_bound[OF assms, of E b count]
  have att: "\<And>k. (next_try (stored ?op) ?w ^^ k) (?att 0) = ?att k"
    by (simp add: read_try_def next_try_stored)
  {
    assume a: "nonblocking io st \<and> ?ans 0 = ERR_SHOULD_WAIT"
    then have nb: "\<not> blocked (stored ?op) (nonblocking io) (?att 0)"
      by (simp add: read_blocked_iff)
    have r: "retry_loop (stored ?op) (nonblocking io) ?w (?att 0) = Some (stored ?op (?att 0))"
      by (rule retry_loop_done[OF nb])
    have f: "fst (stored ?op (?att 0)) = ERR_SHOULD_WAIT"
      using a by (simp add: read_answer_def stored_fst narrow_should_wait)
    obtain s1 where o: "stored ?op (?att 0) = (ERR_SHOULD_WAIT, s1)"
      using f by (cases "stored ?op (?att 0)") auto
    show "\<exists>st'. read E fd (Some b) count st = Some (-1, st') \<and> errno st' = Some EAGAIN"
      by (simp add: rb r o STATUS_def ERROR_def negative_def)
  }
  {
    fix k
    assume nb: "\<not> nonblocking io st"
      and a: "(\<forall>j<k. ?sta j = ERR_SHOULD_WAIT) \<and> ?sta k \<noteq> ERR_SHOULD_WAIT"
    have pre: "\<forall>j<k. blocked (stored ?op) (nonblocking io) ((next_try (stored ?op) ?w ^^ j) (?att 0))"
      using a nb read_blocked_iff[of E io b count fd st] by (simp add: att)
    have fin: "\<not> blocked (stored ?op) (nonblocking io) ((next_try (stored ?op) ?w ^^ k) (?att 0))"
      using a nb read_blocked_iff[of E io b count fd st k] by (simp add: att)
    have r: "retry_loop (stored ?op) (nonblocking io) ?w (?att 0) = Some (stored ?op (?att k))"
      using retry_loop_first_answer[OF pre fin] by (simp add: att)
    have s: "stored ?op (?att k) = (?sta k, snd (?op (?att k)))"
      by (simp add: stored_def read_status_def read_answer_def split: prod.splits)
    show "read E fd (Some b) count st =
            Some (STATUS (?sta k) (mxio_release io (snd (?op (?att k)))))"
      by (simp add: rb r s)
  }
  {
    assume nb: "\<not> nonblocking io st" and a: "\<forall>k. ?sta k = ERR_SHOULD_WAIT"
    have "\<forall>k. blocked (stored ?op) (nonblocking io) ((next_try (stored ?op) ?w ^^ k) (?att 0))"
      using a nb read_blocked_iff[of E io b count fd st] by (simp add: att)
    then have "retry_loop (stored ?op) (nonblocking io) ?w (?att 0) = None"
      by (rule retry_loop_diverges)
    then show "read E fd (Some b) count st = None" by (simp add: rb)
  }
  {
    fix y
    assume nb: "\<not> nonblocking io st" and a: "read E fd (Some b) count st = Some y"
    then obtain z where "retry_loop (stored ?op) (nonblocking io) ?w (?att 0) = Some z"
      by (auto simp: rb split: option.splits)
    from retry_loop_returns[OF this] obtain k where
      "\<not> blocked (stored ?op) (nonblocking io) (?att k)" by (auto simp: att)
    then have ex: "\<exists>k. ?sta k \<noteq> ERR_SHOULD_WAIT" using nb by (auto simp: read_blocked_iff)
    define m where "m = (LEAST k. ?sta k \<noteq> ERR_SHOULD_WAIT)"
    have m1: "?sta m \<noteq> ERR_SHOULD_WAIT" unfolding m_def using ex by (rule LeastI_ex)
    have m2: "\<forall>j<m. ?sta j = ERR_SHOULD_WAIT"
      unfolding m_def using not_less_Least by blast
    show "\<exists>k. (\<forall>j<k. ?sta j = ERR_SHOULD_WAIT) \<and> ?sta k \<noteq> ERR_SHOULD_WAIT
             \<and> ?ans k \<noteq> ERR_SHOULD_WAIT"
      using m1 m2 read_status_should_wait[OF m1] by blast
  }
  {
    fix k
    assume a: "?sta k = ERR_SHOULD_WAIT"
    let ?s = "snd (?op (?att k))"
    have tab: "mxio_fdtab ?s fd = Some io"
      using read_try_keeps[of E fd io b count st k] assms(3) by (simp add: call_read_def)
    have c1: "calls ?s = calls (?att k) @ [Call_read io count (?ans k)]"
      by (simp add: call_read_def outside_calls outside_fst read_answer_def)
    have nx: "?att (Suc k) = ?w ?s" by (simp add: read_try_def next_try_def)
    from wait_forever_calls[OF assms(1,2) tab, of E MXIO_EVT_READABLE]
    show "\<exists>h sigs rest.
            calls (?att (Suc k))
              = calls (?att k) @ Call_read io count (?ans k)
                # Call_wait_begin io MXIO_EVT_READABLE h sigs # rest
            \<and> (h \<noteq> MX_HANDLE_INVALID \<longrightarrow>
                 (\<exists>rest'. rest = Call_wait_one h sigs MX_TIME_INFINITE # rest'))
            \<and> (h = MX_HANDLE_INVALID \<longrightarrow> \<not> list_ex is_wait_one rest)"
      unfolding nx c1 by auto
  }
qed

lemmas demo_defs =
  demo_env_def demo_state_def MAX_MXIO_FD_def MXIO_FLAG_NONBLOCK_def MX_HANDLE_INVALID_def
  MXIO_EVT_READABLE_def MXIO_EVT_WRITABLE_def EPOLLIN_def EPOLLOUT_def

lemmas run_defs =
  fd_to_io_def mxio_acquire_def mxio_release_def outside_def Let_def
  call_read_def call_wait_begin_def call_wait_one_def call_wait_end_def mxio_wait_fd_def
  wait_forever_def next_try_def nonblocking_def negative_def

theorem read_blocks_until_ready_witness:
  "(0::int) \<le> 3 \<and> 3 < MAX_MXIO_FD \<and> mxio_fdtab (demo_state\<lparr>world := 1\<rparr>) 3 = Some 3
   \<and> nonblocking 3 (demo_state\<lparr>world := 1\<rparr>)
   \<and> read_answer demo_env 3 3 0 8 (demo_state\<lparr>world := 1\<rparr>) 0 = ERR_SHOULD_WAIT
   \<and> (\<exists>st'. read demo_env 3 (Some 0) 8 (demo_state\<lparr>world := 1\<rparr>) = Some (-1, st')
          \<and> errno st' = Some EAGAIN)
   \<and> (0::int) \<le> 0 \<and> 0 < MAX_MXIO_FD \<and> mxio_fdtab (demo_state\<lparr>world := 2\<rparr>) 0 = Some 1
   \<and> \<not> nonblocking 1 (demo_state\<lparr>world := 2\<rparr>)
   \<and> read_status demo_env 0 1 0 8 (demo_state\<lparr>world := 2\<rparr>) 0 = ERR_SHOULD_WAIT
   \<and> read_status demo_env 0 1 0 8 (demo_state\<lparr>world := 2\<rparr>) 1 = ERR_SHOULD_WAIT
   \<and> read_status demo_env 0 1 0 8 (demo_state\<lparr>world := 2\<rparr>) 2 = Val 8
   \<and> (\<exists>st'. read demo_env 0 (Some 0) 8 (demo_state\<lparr>world := 2\<rparr>) = Some (8, st'))
   \<and> (\<exists>k. read_answer demo_env 0 1 0 8 (demo_state\<lparr>world := 2\<rparr>) k \<noteq> ERR_SHOULD_WAIT)
   \<and> (\<exists>rest. calls (read_try demo_env 0 1 0 8 (demo_state\<lparr>world := 2\<rparr>) 1)
          = Call_read 1 8 ERR_SHOULD_WAIT # Call_wait_begin 1 MXIO_EVT_READABLE 5 MXIO_EVT_READABLE
            # Call_wait_one 5 MXIO_EVT_READABLE MX_TIME_INFINITE # rest)
   \<and> (\<forall>k. read_status stuck_env 0 1 0 8 demo_state k = ERR_SHOULD_WAIT)
   \<and> read stuck_env 0 (Some 0) 8 demo_state = None"
proof -
  let ?s1 = "demo_state\<lparr>world := 1\<rparr>" and ?s2 = "demo_state\<lparr>world := 2\<rparr>"
  have b3: "(0::int) \<le> 3" "3 < MAX_MXIO_FD" "mxio_fdtab ?s1 3 = Some 3"
    by (simp_all add: demo_defs)
  have b0: "(0::int) \<le> 0" "0 < MAX_MXIO_FD" "mxio_fdtab ?s2 0 = Some 1"
    "mxio_fdtab demo_state 0 = Some 1"
    by (simp_all add: demo_defs)
  have n3: "nonblocking 3 ?s1" by (simp add: nonblocking_def demo_defs)
  have n1: "\<not> nonblocking 1 ?s2" "\<not> nonblocking 1 demo_state"
    by (simp_all add: nonblocking_def demo_defs)
  have a3: "read_answer demo_env 3 3 0 8 ?s1 0 = ERR_SHOULD_WAIT"
    by (simp add: read_answer_def read_try_def run_defs demo_defs)
  have r0a: "read_answer demo_env 0 1 0 8 ?s2 0 = ERR_SHOULD_WAIT"
    by (simp add: read_answer_def read_try_def run_defs demo_defs)
  have r1a: "read_answer demo_env 0 1 0 8 ?s2 1 = ERR_SHOULD_WAIT"
    by (simp add: read_answer_def read_try_def run_defs demo_defs)
  have r2a: "read_answer demo_env 0 1 0 8 ?s2 2 = Val 8"
    by (simp add: read_answer_def read_try_def run_defs demo_defs eval_nat_numeral)
  have a0: "read_status demo_env 0 1 0 8 ?s2 0 = ERR_SHOULD_WAIT"
    unfolding read_status_def r0a by (rule narrow_should_wait)
  have a1: "read_status demo_env 0 1 0 8 ?s2 1 = ERR_SHOULD_WAIT"
    unfolding read_status_def r1a by (rule narrow_should_wait)
  have a2: "read_status demo_env 0 1 0 8 ?s2 2 = Val 8"
    unfolding read_status_def r2a by (rule narrow_status_small) simp
  have pre: "\<forall>j<2. read_status demo_env 0 1 0 8 ?s2 j = ERR_SHOULD_WAIT"
    using a0 a1 by (auto simp: less_Suc_eq eval_nat_numeral)
  have stuck: "\<forall>k. read_status stuck_env 0 1 0 8 demo_state k = ERR_SHOULD_WAIT"
    by (simp add: read_status_def narrow_should_wait read_answer_def call_read_def outside_def
          stuck_env_def split: prod.splits)
  note t3 = read_blocks_until_ready[OF b3, of demo_env 0 8, THEN conjunct1]
  note t0 = read_blocks_until_ready[OF b0(1,2,3), of demo_env 0 8, THEN conjunct2, THEN mp, OF n1(1)]
  note ts = read_blocks_until_ready[OF b0(1,2,4), of stuck_env 0 8, THEN conjunct2, THEN mp, OF n1(2)]
  from t3 n3 a3 have r3: "\<exists>st'. read demo_env 3 (Some 0) 8 ?s1 = Some (-1, st') \<and> errno st' = Some EAGAIN"
    by blast
  have a2': "read_status demo_env 0 1 0 8 ?s2 2 \<noteq> ERR_SHOULD_WAIT" unfolding a2 by simp
  from t0[THEN conjunct1, THEN spec, of 2] pre a2' have rr: "read demo_env 0 (Some 0) 8 ?s2 =
       Some (STATUS (read_status demo_env 0 1 0 8 ?s2 2)
              (mxio_release 1 (snd (call_read demo_env 1 0 8 (read_try demo_env 0 1 0 8 ?s2 2)))))"
    by blast
  have r0: "\<exists>st'. read demo_env 0 (Some 0) 8 ?s2 = Some (8, st')"
    unfolding rr a2 by (simp add: STATUS_def negative_def status_value_def)
  from t0[THEN conjunct2, THEN conjunct2, THEN conjunct1] r0
  have ex: "\<exists>k. read_answer demo_env 0 1 0 8 ?s2 k \<noteq> ERR_SHOULD_WAIT"
    by blast
  have c: "\<exists>rest. calls (read_try demo_env 0 1 0 8 ?s2 1)
          = Call_read 1 8 ERR_SHOULD_WAIT # Call_wait_begin 1 MXIO_EVT_READABLE 5 MXIO_EVT_READABLE
            # Call_wait_one 5 MXIO_EVT_READABLE MX_TIME_INFINITE # rest"
    by (simp add: read_try_def run_defs demo_defs)
  from ts[THEN conjunct2, THEN conjunct1] stuck
  have rs: "read stuck_env 0 (Some 0) 8 demo_state = None" by blast
  show ?thesis
    using b3 b0(1,2,3) n3 n1(1) a3 a0 a1 a2 r3 r0 ex c stuck rs by (intro conjI)
qed

lemma stored_eq: "stored op st = (narrow_status (fst (op st)), snd (op st))"
  by (simp add: stored_def split: prod.splits)

text \<open>
  The claim as it is worded, "\<open>read\<close> waits for readability with infinite timeout",
  fails on an object that has no handle to wait on: fd 2 of the demo state is bound
  to object 2, whose \<open>wait_begin\<close> yields \<open>MX_HANDLE_INVALID\<close>; \<open>NONBLOCK\<close> is
  unset and the transport answers \<open>ERR_SHOULD_WAIT\<close> once. \<open>mxio_wait_fd\<close> returns
  \<open>ERR_INVALID_ARGS\<close> without a kernel wait, \<open>read\<close> ignores that and retries: it
  returns 8, and its whole log is the two transport reads with the \<open>wait_begin\<close>
  between them.
\<close>

theorem read_retries_without_kernel_wait_counterexample:
  "mxio_fdtab (demo_state\<lparr>world := 1\<rparr>) 2 = Some 2
   \<and> \<not> nonblocking 2 (demo_state\<lparr>world := 1\<rparr>)
   \<and> read_answer demo_env 2 2 0 8 (demo_state\<lparr>world := 1\<rparr>) 0 = ERR_SHOULD_WAIT
   \<and> map_option fst (read demo_env 2 (Some 0) 8 (demo_state\<lparr>world := 1\<rparr>)) = Some 8
   \<and> map_option (calls \<circ> snd) (read demo_env 2 (Some 0) 8 (demo_state\<lparr>world := 1\<rparr>))
       = Some [Call_read 2 8 ERR_SHOULD_WAIT,
               Call_wait_begin 2 MXIO_EVT_READABLE MX_HANDLE_INVALID MXIO_EVT_READABLE,
               Call_read 2 8 (Val 8)]"
proof -
  let ?s = "demo_state\<lparr>world := 1\<rparr>"
  let ?op = "call_read demo_env 2 0 8"
  let ?w = "wait_forever demo_env 2 MXIO_EVT_READABLE"
  let ?a = "read_try demo_env 2 2 0 8 ?s 0"
  let ?b = "read_try demo_env 2 2 0 8 ?s 1"
  have bd: "(0::int) \<le> 2" "2 < MAX_MXIO_FD" "mxio_fdtab ?s 2 = Some 2"
    by (simp_all add: demo_defs)
  have nb: "\<not> nonblocking 2 ?s" by (simp add: nonblocking_def demo_defs)
  have a0: "read_answer demo_env 2 2 0 8 ?s 0 = ERR_SHOULD_WAIT"
    by (simp add: read_answer_def read_try_def run_defs demo_defs)
  have a1: "read_answer demo_env 2 2 0 8 ?s 1 = Val 8"
    by (simp add: read_answer_def read_try_def run_defs demo_defs)
  have b0: "blocked (stored ?op) (nonblocking 2) ?a"
    using a0 nb by (simp add: read_blocked_iff read_status_def narrow_status_def)
  have b1: "\<not> blocked (stored ?op) (nonblocking 2) ?b"
    using a1 by (simp add: read_blocked_iff read_status_def narrow_status_def)
  have nx: "next_try (stored ?op) ?w ?a = ?b"
    by (simp add: read_try_def next_try_stored)
  have rl: "retry_loop (stored ?op) (nonblocking 2) ?w ?a = Some (stored ?op ?b)"
    using retry_loop_again[OF b0, of ?w] retry_loop_done[OF b1, of ?w] by (simp only: nx)
  have st: "stored ?op ?b = (Val 8, snd (?op ?b))"
    using a1 unfolding read_answer_def by (simp add: stored_eq narrow_status_def)
  have r: "read demo_env 2 (Some 0) 8 ?s = Some (8, mxio_release 2 (snd (?op ?b)))"
    unfolding read_bound[OF bd] rl st by (simp add: STATUS_def negative_def status_value_def)
  have lg: "calls (mxio_release 2 (snd (?op ?b)))
       = [Call_read 2 8 ERR_SHOULD_WAIT,
          Call_wait_begin 2 MXIO_EVT_READABLE MX_HANDLE_INVALID MXIO_EVT_READABLE,
          Call_read 2 8 (Val 8)]"
    by (simp add: read_try_def run_defs demo_defs)
  show ?thesis unfolding r using bd(3) nb a0 lg by simp
qed

text \<open>
  The 32-bit \<open>status\<close> at work: a transport that answers \<open>read\<close> with \<open>2^31\<close> makes
  \<open>read\<close> return -1 with errno \<open>EIO\<close>.
\<close>

definition wide_env :: "nat env" where
  "wide_env = demo_env\<lparr>ops_read := (\<lambda>io buf n w. (Val (2 ^ 31), w))\<rparr>"

lemma read_wide_result:
  "map_option fst (read wide_env 0 (Some 0) 8 demo_state) = Some (-1)
   \<and> map_option (errno \<circ> snd) (read wide_env 0 (Some 0) 8 demo_state) = Some (Some EIO)"
proof -
  let ?op = "call_read wide_env 1 0 8"
  let ?w = "wait_forever wide_env 0 MXIO_EVT_READABLE"
  let ?a = "read_try wide_env 0 1 0 8 demo_state 0"
  have bd: "(0::int) \<le> 0" "0 < MAX_MXIO_FD" "mxio_fdtab demo_state 0 = Some 1"
    by (simp_all add: demo_defs)
  have a0: "read_status wide_env 0 1 0 8 demo_state 0 = ERR_OTHER"
    by (simp add: read_status_def read_answer_def read_try_def call_read_def outside_def
          wide_env_def narrow_status_def status_of_code_def split: prod.splits)
  have b0: "\<not> blocked (stored ?op) (nonblocking 1) ?a"
    using a0 by (simp add: read_blocked_iff)
  have st: "stored ?op ?a = (ERR_OTHER, snd (?op ?a))"
    using a0 unfolding read_status_def read_answer_def by (simp add: stored_eq)
  have r: "read wide_env 0 (Some 0) 8 demo_state = Some (ERROR ERR_OTHER (mxio_release 1 (snd (?op ?a))))"
    unfolding read_bound[OF bd] retry_loop_done[OF b0] st by (simp add: STATUS_def negative_def)
  show ?thesis unfolding r by (simp add: ERROR_def)
qed

text \<open>
  Claim C9: for every fd, bound or not, and every count, \<open>read\<close>, \<open>write\<close>,
  \<open>pread\<close> and \<open>pwrite\<close> called with a NULL buffer return -1 with errno \<open>EINVAL\<close>
  before the fd is looked up: the state afterwards is the state before with only
  \<open>errno\<close> set, also for an unbound fd, where a non-NULL buffer gives \<open>EBADF\<close>.
\<close>

theorem null_buffer_rejected_first:
  "read E fd None count st = Some (-1, st\<lparr>errno := Some EINVAL\<rparr>)
   \<and> write E fd None count st = Some (-1, st\<lparr>errno := Some EINVAL\<rparr>)
   \<and> pread E fd None count ofs st = Some (-1, st\<lparr>errno := Some EINVAL\<rparr>)
   \<and> pwrite E fd None count ofs st = Some (-1, st\<lparr>errno := Some EINVAL\<rparr>)"
  by (simp add: read_def write_def pread_def pwrite_def ERRNO_def)

section \<open>The other fd operations (unistd.c, lines 541-570, 840-972, 1084-1109, 1128-1177, 1643-1654)\<close>

definition call_misc ::
  "'w env \<Rightarrow> ioref \<Rightarrow> misc_op \<Rightarrow> int \<Rightarrow> nat \<Rightarrow> misc_data \<Rightarrow> 'w mxio_state
   \<Rightarrow> mx_status \<times> 'w mxio_state" where
  "call_misc E io op off maxreply d st =
     outside (ops_misc E io op off maxreply d) (\<lambda>r. Call_misc io op) st"

definition call_seek :: "'w env \<Rightarrow> ioref \<Rightarrow> int \<Rightarrow> int \<Rightarrow> 'w mxio_state \<Rightarrow> mx_status \<times> 'w mxio_state" where
  "call_seek E io offset whence st =
     outside (ops_seek E io offset whence) (\<lambda>r. Call_seek io offset whence) st"

definition call_posix_ioctl :: "'w env \<Rightarrow> ioref \<Rightarrow> int \<Rightarrow> 'w mxio_state \<Rightarrow> mx_status \<times> 'w mxio_state" where
  "call_posix_ioctl E io req st = outside (ops_posix_ioctl E io req) (\<lambda>r. Call_posix_ioctl io req) st"

definition call_time_get :: "'w env \<Rightarrow> 'w mxio_state \<Rightarrow> int \<times> 'w mxio_state" where
  "call_time_get E st = outside (mx_time_get E) (\<lambda>r. Call_time_get) st"

text \<open>
  Modelled from the spec: \<open>vnattr_t\<close> is declared in mxio/vfs.h; section 6 lists its
  fields \<open>valid, mode, inode, size, nlink, create_time, modify_time\<close> (two 32-bit and
  five 64-bit words). The stat buffer itself is not modelled.
\<close>

definition sizeof_vnattr :: nat where
  "sizeof_vnattr = 48"

definition ATTR_MTIME :: "32 word" where
  "ATTR_MTIME = 2"

definition mxio_stat :: "'w env \<Rightarrow> ioref \<Rightarrow> 'w mxio_state \<Rightarrow> mx_status \<times> 'w mxio_state" where
  "mxio_stat E io st =
     (case call_misc E io MXRIO_STAT 0 sizeof_vnattr No_data st of
        (r, st1) \<Rightarrow>
          if negative r then (ERR_BAD_HANDLE, st1)
          else if status_value r < int sizeof_vnattr then (ERR_IO, st1)
          else (NO_ERROR, st1))"

text \<open>\<open>mxio_setattr\<close> dereferences \<open>io\<close>; \<open>None\<close> is a NULL pointer.\<close>

definition mxio_setattr ::
  "'w env \<Rightarrow> ioref option \<Rightarrow> misc_data \<Rightarrow> 'w mxio_state \<Rightarrow> (mx_status \<times> 'w mxio_state) outcome" where
  "mxio_setattr E io vn st =
     (case io of
        None \<Rightarrow> Undefined_Behaviour
      | Some i \<Rightarrow>
          (case call_misc E i MXRIO_SETATTR 0 0 vn st of
             (r, st1) \<Rightarrow> Returns (if negative r then ERR_BAD_HANDLE else r, st1)))"

record timespec =
  tv_sec :: int
  tv_nsec :: int

definition UTIME_NOW :: int where "UTIME_NOW = 0x3fffffff"
definition UTIME_OMIT :: int where "UTIME_OMIT = 0x3ffffffe"

definition MX_SEC :: "int \<Rightarrow> int" where
  "MX_SEC n = n * 1000000000"

text \<open>\<open>mx_utimens\<close>; the argument \<open>times\<close> is \<open>None\<close> for NULL, else \<open>(times[0], times[1])\<close>.\<close>

definition mx_utimens ::
  "'w env \<Rightarrow> ioref option \<Rightarrow> (timespec \<times> timespec) option \<Rightarrow> 'w mxio_state
   \<Rightarrow> (mx_status \<times> 'w mxio_state) outcome" where
  "mx_utimens E io ts st =
     (case (case ts of
              None \<Rightarrow> call_time_get E st
            | Some (t0, t1) \<Rightarrow>
                if tv_nsec t1 = UTIME_NOW then call_time_get E st
                else (MX_SEC (tv_sec t1) + tv_nsec t1, st)) of
        (modify_time, st1) \<Rightarrow>
          (let valid = (case ts of
                          None \<Rightarrow> ATTR_MTIME
                        | Some (t0, t1) \<Rightarrow> if tv_nsec t1 \<noteq> UTIME_OMIT then ATTR_MTIME else 0)
           in mxio_setattr E io (Vnattr valid modify_time) st1))"

definition futimens ::
  "'w env \<Rightarrow> int \<Rightarrow> (timespec \<times> timespec) option \<Rightarrow> 'w mxio_state
   \<Rightarrow> (int \<times> 'w mxio_state) outcome" where
  "futimens E fd ts st =
     (case fd_to_io fd st of
        (io, st1) \<Rightarrow>
          (case mx_utimens E io ts st1 of
             Undefined_Behaviour \<Rightarrow> Undefined_Behaviour
           | Returns (r, st2) \<Rightarrow> Returns (STATUS r st2)))"

definition fstat :: "'w env \<Rightarrow> int \<Rightarrow> 'w mxio_state \<Rightarrow> int \<times> 'w mxio_state" where
  "fstat E fd st =
     (case fd_to_io fd st of
        (None, st1) \<Rightarrow> ERRNO EBADF st1
      | (Some io, st1) \<Rightarrow>
          (case mxio_stat E io st1 of
             (s, st2) \<Rightarrow> (case STATUS s st2 of (r, st3) \<Rightarrow> (r, mxio_release io st3))))"

definition fsync :: "'w env \<Rightarrow> int \<Rightarrow> 'w mxio_state \<Rightarrow> int \<times> 'w mxio_state" where
  "fsync E fd st =
     (case fd_to_io fd st of
        (None, st1) \<Rightarrow> ERRNO EBADF st1
      | (Some io, st1) \<Rightarrow>
          (case call_misc E io MXRIO_SYNC 0 0 No_data st1 of
             (s, st2) \<Rightarrow> (case STATUS s st2 of (r, st3) \<Rightarrow> (r, mxio_release io st3))))"

definition ftruncate :: "'w env \<Rightarrow> int \<Rightarrow> int \<Rightarrow> 'w mxio_state \<Rightarrow> int \<times> 'w mxio_state" where
  "ftruncate E fd len st =
     (case fd_to_io fd st of
        (None, st1) \<Rightarrow> ERRNO EBADF st1
      | (Some io, st1) \<Rightarrow>
          (case call_misc E io MXRIO_TRUNCATE len 0 No_data st1 of
             (s, st2) \<Rightarrow> (case STATUS s st2 of (r, st3) \<Rightarrow> (r, mxio_release io st3))))"

definition lseek :: "'w env \<Rightarrow> int \<Rightarrow> int \<Rightarrow> int \<Rightarrow> 'w mxio_state \<Rightarrow> int \<times> 'w mxio_state" where
  "lseek E fd offset whence st =
     (case fd_to_io fd st of
        (None, st1) \<Rightarrow> ERRNO EBADF st1
      | (Some io, st1) \<Rightarrow>
          (case call_seek E io offset whence st1 of
             (s, st2) \<Rightarrow>
               (case (if negative s then ERROR s st2 else (status_value s, st2)) of
                  (r, st3) \<Rightarrow> (r, mxio_release io st3))))"

definition ioctl :: "'w env \<Rightarrow> int \<Rightarrow> int \<Rightarrow> 'w mxio_state \<Rightarrow> int \<times> 'w mxio_state" where
  "ioctl E fd req st =
     (case fd_to_io fd st of
        (None, st1) \<Rightarrow> ERRNO EBADF st1
      | (Some io, st1) \<Rightarrow>
          (case call_posix_ioctl E io req st1 of
             (s, st2) \<Rightarrow> STATUS (narrow_status s) (mxio_release io st2)))"

text \<open>
  \<open>fcntl\<close>: the command is one of the named constants of fcntl.h or anything else
  (\<open>F_OTHER\<close>, the \<open>default\<close> branch); \<open>arg\<close> is the \<open>int\<close> that \<open>GET_INT_ARG\<close> reads.
\<close>

datatype fcntl_cmd =
    F_DUPFD | F_DUPFD_CLOEXEC | F_GETFD | F_SETFD | F_GETFL | F_SETFL
  | F_GETOWN | F_SETOWN | F_GETLK | F_SETLK | F_SETLKW | F_OTHER int

definition fcntl ::
  "'w env \<Rightarrow> int \<Rightarrow> fcntl_cmd \<Rightarrow> 32 word \<Rightarrow> 'w mxio_state \<Rightarrow> (int \<times> 'w mxio_state) outcome" where
  "fcntl E fd cmd arg st =
     (case cmd of
        F_DUPFD \<Rightarrow> mxio_dup E fd (-1) (sint arg) st
      | F_DUPFD_CLOEXEC \<Rightarrow> mxio_dup E fd (-1) (sint arg) st
      | F_GETFD \<Rightarrow>
          (case fd_to_io fd st of
             (None, st1) \<Rightarrow> Returns (ERRNO EBADF st1)
           | (Some io, st1) \<Rightarrow>
               Returns (sint (flags (objs st1 io) AND MXIO_FD_FLAGS), mxio_release io st1))
      | F_SETFD \<Rightarrow>
          (case fd_to_io fd st of
             (None, st1) \<Rightarrow> Returns (ERRNO EBADF st1)
           | (Some io, st1) \<Rightarrow>
               (let f1 = flags (objs st1 io) AND NOT MXIO_FD_FLAGS;
                    f2 = f1 OR (arg AND MXIO_FD_FLAGS)
                in Returns (0, mxio_release io (set_flags io f2 st1))))
      | F_GETFL \<Rightarrow>
          (case fd_to_io fd st of
             (None, st1) \<Rightarrow> Returns (ERRNO EBADF st1)
           | (Some io, st1) \<Rightarrow>
               Returns (if flags (objs st1 io) AND MXIO_FLAG_NONBLOCK \<noteq> 0 then sint O_NONBLOCK else 0,
                        mxio_release io st1))
      | F_SETFL \<Rightarrow>
          (case fd_to_io fd st of
             (None, st1) \<Rightarrow> Returns (ERRNO EBADF st1)
           | (Some io, st1) \<Rightarrow>
               (let f = (if arg AND O_NONBLOCK \<noteq> 0
                         then flags (objs st1 io) OR MXIO_FLAG_NONBLOCK
                         else flags (objs st1 io) AND NOT MXIO_FLAG_NONBLOCK)
                in Returns (0, mxio_release io (set_flags io f st1))))
      | F_GETOWN \<Rightarrow> Returns (ERRNO ENOSYS st)
      | F_SETOWN \<Rightarrow> Returns (ERRNO ENOSYS st)
      | F_GETLK \<Rightarrow> Returns (ERRNO ENOSYS st)
      | F_SETLK \<Rightarrow> Returns (ERRNO ENOSYS st)
      | F_SETLKW \<Rightarrow> Returns (ERRNO ENOSYS st)
      | F_OTHER _ \<Rightarrow> Returns (ERRNO EINVAL st))"

section \<open>Operations on an fd that is not open\<close>

text \<open>
  An fd is bad when it is negative, at least \<open>MAX_MXIO_FD\<close>, or its slot is empty.
  \<open>looks_up_fd\<close> holds for the \<open>fcntl\<close> commands that look the fd up.
\<close>

definition bad_fd :: "'w mxio_state \<Rightarrow> int \<Rightarrow> bool" where
  "bad_fd st fd = (fd < 0 \<or> fd \<ge> MAX_MXIO_FD \<or> mxio_fdtab st fd = None)"

lemma fd_to_io_bad: "bad_fd st fd \<Longrightarrow> fd_to_io fd st = (None, st)"
  by (auto simp: bad_fd_def fd_to_io_def)

definition looks_up_fd :: "fcntl_cmd \<Rightarrow> bool" where
  "looks_up_fd cmd = (cmd \<in> {F_DUPFD, F_DUPFD_CLOEXEC, F_GETFD, F_SETFD, F_GETFL, F_SETFL})"

text \<open>
  Claim C5, as amended: for every bad fd, \<open>read\<close>, \<open>write\<close>, \<open>pread\<close> and
  \<open>pwrite\<close> with a non-NULL buffer, \<open>close\<close>, \<open>fstat\<close>, \<open>fsync\<close>, \<open>ftruncate\<close>,
  \<open>lseek\<close>, \<open>ioctl\<close>, and \<open>fcntl\<close> with one of the commands \<open>F_DUPFD\<close>,
  \<open>F_DUPFD_CLOEXEC\<close>, \<open>F_GETFD\<close>, \<open>F_SETFD\<close>, \<open>F_GETFL\<close>, \<open>F_SETFL\<close> return -1 with
  errno \<open>EBADF\<close> and change nothing else.
\<close>

theorem bad_fd_gives_ebadf:
  assumes "bad_fd st fd"
  shows "read E fd (Some b) n st = Some (-1, st\<lparr>errno := Some EBADF\<rparr>)
       \<and> write E fd (Some b) n st = Some (-1, st\<lparr>errno := Some EBADF\<rparr>)
       \<and> pread E fd (Some b) n ofs st = Some (-1, st\<lparr>errno := Some EBADF\<rparr>)
       \<and> pwrite E fd (Some b) n ofs st = Some (-1, st\<lparr>errno := Some EBADF\<rparr>)
       \<and> close E fd st = (-1, st\<lparr>errno := Some EBADF\<rparr>)
       \<and> fstat E fd st = (-1, st\<lparr>errno := Some EBADF\<rparr>)
       \<and> fsync E fd st = (-1, st\<lparr>errno := Some EBADF\<rparr>)
       \<and> ftruncate E fd len st = (-1, st\<lparr>errno := Some EBADF\<rparr>)
       \<and> lseek E fd ofs whence st = (-1, st\<lparr>errno := Some EBADF\<rparr>)
       \<and> ioctl E fd req st = (-1, st\<lparr>errno := Some EBADF\<rparr>)
       \<and> (looks_up_fd cmd \<longrightarrow>
             fcntl E fd cmd arg st = Returns (-1, st\<lparr>errno := Some EBADF\<rparr>))"
proof -
  note l = fd_to_io_bad[OF assms]
  have c: "close E fd st = (-1, st\<lparr>errno := Some EBADF\<rparr>)"
    using assms by (auto simp: close_def bad_fd_def ERRNO_def)
  have f: "looks_up_fd cmd \<longrightarrow> fcntl E fd cmd arg st = Returns (-1, st\<lparr>errno := Some EBADF\<rparr>)"
    by (auto simp: looks_up_fd_def fcntl_def mxio_dup_def l ERRNO_def)
  show ?thesis
    using c f
    by (simp add: read_def write_def pread_def pwrite_def fstat_def fsync_def ftruncate_def
          lseek_def ioctl_def l ERRNO_def)
qed

theorem bad_fd_gives_ebadf_witness:
  "bad_fd demo_state 7 \<and> looks_up_fd F_GETFL
   \<and> read demo_env 7 (Some 0) 8 demo_state = Some (-1, demo_state\<lparr>errno := Some EBADF\<rparr>)
   \<and> close demo_env 7 demo_state = (-1, demo_state\<lparr>errno := Some EBADF\<rparr>)
   \<and> lseek demo_env 7 0 0 demo_state = (-1, demo_state\<lparr>errno := Some EBADF\<rparr>)
   \<and> fcntl demo_env 7 F_GETFL 0 demo_state = Returns (-1, demo_state\<lparr>errno := Some EBADF\<rparr>)
   \<and> bad_fd demo_state (-1)
   \<and> fstat demo_env (-1) demo_state = (-1, demo_state\<lparr>errno := Some EBADF\<rparr>)
   \<and> bad_fd demo_state 1024
   \<and> ioctl demo_env 1024 0 demo_state = (-1, demo_state\<lparr>errno := Some EBADF\<rparr>)"
proof -
  have b: "bad_fd demo_state 7" "bad_fd demo_state (-1)" "bad_fd demo_state 1024"
    by (simp_all add: bad_fd_def demo_state_def MAX_MXIO_FD_def)
  have g: "looks_up_fd F_GETFL" by (simp add: looks_up_fd_def)
  from bad_fd_gives_ebadf[OF b(1), of demo_env 0 8 0 0 0 0 F_GETFL 0]
       bad_fd_gives_ebadf[OF b(2), of demo_env 0 8 0 0 0 0 F_GETFL 0]
       bad_fd_gives_ebadf[OF b(3), of demo_env 0 8 0 0 0 0 F_GETFL 0] b g
  show ?thesis by simp
qed

text \<open>
  The claim as stated covers every call of \<open>fcntl\<close>; \<open>fcntl(7, F_GETLK)\<close> on the
  unbound fd 7 returns -1 with errno \<open>ENOSYS\<close>: the command is rejected without a
  lookup.
\<close>

theorem bad_fd_other_errno_counterexample:
  "bad_fd demo_state 7
   \<and> fcntl demo_env 7 F_GETLK 0 demo_state = Returns (-1, demo_state\<lparr>errno := Some ENOSYS\<rparr>)
   \<and> errno (demo_state\<lparr>errno := Some ENOSYS\<rparr>) \<noteq> Some EBADF"
  by (simp add: bad_fd_def demo_state_def MAX_MXIO_FD_def fcntl_def ERRNO_def)

text \<open>
  \<open>futimens\<close> passes the result of the lookup on without a NULL test, and
  \<open>mxio_setattr\<close> dereferences it: on a bad fd the call does not return \<open>EBADF\<close>.
\<close>

lemma futimens_bad_fd_dereferences_null:
  "bad_fd st fd \<Longrightarrow> futimens E fd ts st = Undefined_Behaviour"
  by (auto simp: futimens_def fd_to_io_bad mx_utimens_def mxio_setattr_def Let_def
        split: option.splits prod.splits)

section \<open>poll (unistd.c, lines 1446-1528)\<close>

record pollfd =
  pfd_fd :: int
  pfd_events :: "16 word"
  pfd_revents :: "16 word"

definition call_wait_many ::
  "'w env \<Rightarrow> (mx_handle \<times> mx_signals) list \<Rightarrow> mx_time \<Rightarrow> 'w mxio_state
   \<Rightarrow> (mx_status \<times> mx_signals list) \<times> 'w mxio_state" where
  "call_wait_many E items tmo st =
     outside (mx_object_wait_many E items tmo) (\<lambda>(r, pend). Call_wait_many items tmo r) st"

text \<open>
  The first loop. The result is the array \<open>fds\<close> as the loop leaves it, the entries
  of \<open>ios\<close> that the loop has written (all of them without a \<open>break\<close>, those up to
  the offending entry with one), the wait items in order, and \<open>r\<close>. The \<open>short\<close>
  \<open>pfd->events\<close> is converted to the \<open>uint32_t\<close> parameter of \<open>wait_begin\<close>.
\<close>

fun poll_begin ::
  "'w env \<Rightarrow> pollfd list \<Rightarrow> 'w mxio_state
   \<Rightarrow> pollfd list \<times> ioref option list \<times> (mx_handle \<times> mx_signals) list \<times> mx_status \<times> 'w mxio_state" where
  "poll_begin E [] st = ([], [], [], NO_ERROR, st)"
| "poll_begin E (p # ps) st =
     (if pfd_fd p < 0 then
        (case poll_begin E ps st of
           (ps', ios, items, r, st') \<Rightarrow> (p\<lparr>pfd_revents := 0\<rparr> # ps', None # ios, items, r, st'))
      else
        (case fd_to_io (pfd_fd p) st of
           (None, st1) \<Rightarrow>
             (case poll_begin E ps st1 of
                (ps', ios, items, r, st') \<Rightarrow>
                  (p\<lparr>pfd_revents := POLLNVAL\<rparr> # ps', None # ios, items, r, st'))
         | (Some io, st1) \<Rightarrow>
             (case call_wait_begin E io (scast (pfd_events p)) st1 of
                ((h, sigs), st2) \<Rightarrow>
                  if h = MX_HANDLE_INVALID
                  then (p\<lparr>pfd_revents := 0\<rparr> # ps, [Some io], [], ERR_INVALID_ARGS, st2)
                  else
                    (case poll_begin E ps st2 of
                       (ps', ios, items, r, st') \<Rightarrow>
                         (p\<lparr>pfd_revents := 0\<rparr> # ps', Some io # ios, (h, sigs) # items, r, st')))))"

text \<open>
  \<open>items[j].pending\<close> after the kernel wait: the kernel's answer for item \<open>j\<close>, and
  the initial 0 where it gave none.
\<close>

definition pending_of :: "mx_signals list \<Rightarrow> nat \<Rightarrow> mx_signals" where
  "pending_of pend j = (if j < length pend then pend ! j else 0)"

text \<open>
  The second loop, over the entries with their \<open>ios[i]\<close>; \<open>j\<close> counts the entries
  with an object, the \<open>int\<close> of the result is the number added to \<open>nfds\<close>.
\<close>

fun poll_end ::
  "'w env \<Rightarrow> mx_signals list \<Rightarrow> nat \<Rightarrow> (pollfd \<times> ioref option) list \<Rightarrow> nat \<Rightarrow> 'w mxio_state
   \<Rightarrow> pollfd list \<times> int \<times> 'w mxio_state" where
  "poll_end E pend nvalid [] j st = ([], 0, st)"
| "poll_end E pend nvalid ((p, None) # rest) j st =
     (case poll_end E pend nvalid rest j st of
        (ps, n, st') \<Rightarrow> (p # ps, n, st'))"
| "poll_end E pend nvalid ((p, Some io) # rest) j st =
     (if j < nvalid then
        (case call_wait_end E io (pending_of pend j) st of
           (ev, st1) \<Rightarrow>
             (let rev = ucast (ev AND (scast (pfd_events p) OR EPOLLHUP OR EPOLLERR))
              in case poll_end E pend nvalid rest (j + 1) st1 of
                   (ps, n, st') \<Rightarrow>
                     (p\<lparr>pfd_revents := rev\<rparr> # ps, (if rev \<noteq> 0 then n + 1 else n), st')))
      else
        (case poll_end E pend nvalid rest (j + 1) st of
           (ps, n, st') \<Rightarrow> (p # ps, n, st')))"

text \<open>The last loop: every object that was looked up is released.\<close>

fun release_all :: "ioref option list \<Rightarrow> 'w mxio_state \<Rightarrow> 'w mxio_state" where
  "release_all [] st = st"
| "release_all (None # ios) st = release_all ios st"
| "release_all (Some io # ios) st = release_all ios (mxio_release io st)"

definition poll ::
  "'w env \<Rightarrow> pollfd list \<Rightarrow> int \<Rightarrow> 'w mxio_state \<Rightarrow> int \<times> pollfd list \<times> 'w mxio_state" where
  "poll E fds timeout st =
     (if length fds > MAX_POLL_NFDS then (case ERRNO EINVAL st of (ret, st') \<Rightarrow> (ret, fds, st'))
      else
        (case poll_begin E fds st of
           (fds1, ios, items, r, st1) \<Rightarrow>
             (case (if r = NO_ERROR \<and> length items > 0 then
                      (let tmo = (if timeout \<ge> 0 then MX_MSEC (nat timeout) else MX_TIME_INFINITE)
                       in case call_wait_many E items tmo st1 of
                            ((r2, pend), st2) \<Rightarrow>
                              if r2 = NO_ERROR \<or> r2 = ERR_TIMED_OUT then
                                (case poll_end E pend (length items) (zip fds1 ios) 0 st2 of
                                   (fds2, nfds, st3) \<Rightarrow> (r2, fds2, nfds, st3))
                              else (r2, fds1, 0, st2))
                    else (r, fds1, 0, st1)) of
                (r', fds', nfds, st') \<Rightarrow>
                  (case (if r' = NO_ERROR \<or> r' = ERR_TIMED_OUT
                         then (nfds, release_all ios st')
                         else ERROR r' (release_all ios st')) of
                     (ret, st'') \<Rightarrow> (ret, fds', st'')))))"

section \<open>Properties of poll\<close>



definition begin_mark :: "'w mxio_state \<Rightarrow> pollfd \<Rightarrow> pollfd" where
  "begin_mark st p =
     p\<lparr>pfd_revents := (if 0 \<le> pfd_fd p \<and> bad_fd st (pfd_fd p) then POLLNVAL else 0)\<rparr>"



definition new_calls :: "'w mxio_state \<Rightarrow> 'w mxio_state \<Rightarrow> call list" where
  "new_calls st st' = drop (length (calls st)) (calls st')"


definition failed_wait_many :: "call \<Rightarrow> bool" where
  "failed_wait_many c =
     (case c of Call_wait_many items tmo r \<Rightarrow> r \<noteq> NO_ERROR \<and> r \<noteq> ERR_TIMED_OUT | _ \<Rightarrow> False)"

definition is_wait_begin :: "call \<Rightarrow> bool" where
  "is_wait_begin c = (case c of Call_wait_begin io ev h sigs \<Rightarrow> True | _ \<Rightarrow> False)"












definition skipped_fd :: pollfd where
  "skipped_fd = \<lparr>pfd_fd = -1, pfd_events = 1, pfd_revents = 5\<rparr>"


lemma bad_fd_cong: "mxio_fdtab st' = mxio_fdtab st \<Longrightarrow> bad_fd st' = bad_fd st"
  by (rule ext) (simp add: bad_fd_def)



lemma fd_to_io_cases:
  "fd_to_io fd st = (if bad_fd st fd then (None, st)
                     else (mxio_fdtab st fd, mxio_acquire (the (mxio_fdtab st fd)) st))"
  by (auto simp: fd_to_io_def bad_fd_def split: option.splits)

















lemma list_ex_wait_begins: "list_all is_wait_begin L \<Longrightarrow> \<not> list_ex failed_wait_many L"
  by (induction L) (auto simp: is_wait_begin_def failed_wait_many_def split: call.splits)






lemma poll_begin_idle:
  "\<forall>p\<in>set fds. pfd_fd p < 0 \<or> bad_fd st (pfd_fd p) \<Longrightarrow>
   poll_begin E fds st = (map (begin_mark st) fds, map (\<lambda>p. None) fds, [], NO_ERROR, st)"
  by (induction fds) (auto simp: begin_mark_def fd_to_io_cases)

lemma release_all_none: "release_all (map (\<lambda>p. None) fds) st = st"
  by (induction fds) auto

text \<open>
  Claim C10, as amended: for every fds array of at most \<open>MAX_POLL_NFDS\<close> entries in
  which every entry has a negative fd or an unbound fd, and for every timeout value,
  negative ones included, \<open>poll\<close> returns 0 with the state unchanged: it makes no
  outside call, so it never invokes the kernel multi-wait; each unbound entry is
  marked \<open>POLLNVAL\<close> and each negative entry has revents 0.
\<close>

theorem poll_without_wait_items:
  assumes "length fds \<le> MAX_POLL_NFDS"
    and "\<forall>p\<in>set fds. pfd_fd p < 0 \<or> bad_fd st (pfd_fd p)"
  shows "poll E fds t st = (0, map (begin_mark st) fds, st)
       \<and> new_calls st (snd (snd (poll E fds t st))) = []
       \<and> (\<forall>p\<in>set fds. pfd_revents (begin_mark st p) = (if pfd_fd p < 0 then 0 else POLLNVAL))"
proof -
  have p: "poll E fds t st = (0, map (begin_mark st) fds, st)"
    using assms(1) by (simp add: poll_def poll_begin_idle[OF assms(2)] release_all_none)
  have m: "\<forall>p\<in>set fds. pfd_revents (begin_mark st p) = (if pfd_fd p < 0 then 0 else POLLNVAL)"
    using assms(2) by (auto simp: begin_mark_def)
  show ?thesis using p m by (simp add: new_calls_def)
qed

theorem poll_without_wait_items_witness:
  "length [skipped_fd, skipped_fd\<lparr>pfd_fd := 7\<rparr>] \<le> MAX_POLL_NFDS
   \<and> pfd_fd skipped_fd < 0
   \<and> bad_fd demo_state (pfd_fd (skipped_fd\<lparr>pfd_fd := 7\<rparr>))
   \<and> poll demo_env [skipped_fd, skipped_fd\<lparr>pfd_fd := 7\<rparr>] (-1) demo_state
        = (0, [skipped_fd\<lparr>pfd_revents := 0\<rparr>, skipped_fd\<lparr>pfd_fd := 7, pfd_revents := POLLNVAL\<rparr>],
           demo_state)"
proof -
  let ?fds = "[skipped_fd, skipped_fd\<lparr>pfd_fd := 7\<rparr>]"
  have l: "length ?fds \<le> MAX_POLL_NFDS" by (simp add: MAX_POLL_NFDS_def)
  have b: "\<forall>p\<in>set ?fds. pfd_fd p < 0 \<or> bad_fd demo_state (pfd_fd p)"
    by (simp add: skipped_fd_def bad_fd_def demo_state_def MAX_MXIO_FD_def)
  have m: "map (begin_mark demo_state) ?fds
             = [skipped_fd\<lparr>pfd_revents := 0\<rparr>, skipped_fd\<lparr>pfd_fd := 7, pfd_revents := POLLNVAL\<rparr>]"
    by (simp add: begin_mark_def skipped_fd_def bad_fd_def demo_state_def MAX_MXIO_FD_def)
  have b1: "pfd_fd skipped_fd < 0" by (simp add: skipped_fd_def)
  have b2: "bad_fd demo_state (pfd_fd (skipped_fd\<lparr>pfd_fd := 7\<rparr>))"
    by (simp add: bad_fd_def demo_state_def MAX_MXIO_FD_def)
  from poll_without_wait_items[OF l b, of demo_env "-1"] l b1 b2 m show ?thesis by simp
qed

text \<open>
  The claim as stated covers every array: with 1025 entries, all of them with fd -1,
  \<open>poll\<close> returns -1 with errno \<open>EINVAL\<close>, not 0.
\<close>

theorem poll_too_many_entries_counterexample:
  "pfd_fd skipped_fd < 0
   \<and> poll demo_env (replicate 1025 skipped_fd) (-1) demo_state
        = (-1, replicate 1025 skipped_fd, demo_state\<lparr>errno := Some EINVAL\<rparr>)"
  by (simp add: skipped_fd_def poll_def MAX_POLL_NFDS_def ERRNO_def)

end
